theory Spec2Isabelle
  imports Main "HOL-Library.Multiset"
begin

section \<open>JavaScript values used by the services\<close>

text \<open>
  The values an error object carries in its \<^verbatim>\<open>status\<close> and \<^verbatim>\<open>code\<close> properties are
  numbers (HTTP status of the generative-AI client) or strings (Firestore error codes).
  A property that is absent is \<open>None\<close>.
\<close>

datatype js_prim = JNum int | JStr string

record js_error =
  message :: string
  status :: "js_prim option"
  code :: "js_prim option"

text \<open>\<^verbatim>\<open>new Error(msg)\<close>: a message, no status, no code.\<close>

definition Error :: "string \<Rightarrow> js_error" where
  "Error msg = \<lparr>message = msg, status = None, code = None\<rparr>"

text \<open>JavaScript truthiness of an optional number or string (\<^verbatim>\<open>undefined\<close>, \<^verbatim>\<open>0\<close> and \<^verbatim>\<open>''\<close> are falsy).\<close>

fun truthy :: "js_prim option \<Rightarrow> bool" where
  "truthy None = False"
| "truthy (Some (JNum n)) = (n \<noteq> 0)"
| "truthy (Some (JStr s)) = (s \<noteq> [])"

text \<open>\<^verbatim>\<open>a || b\<close> on optional primitives.\<close>

definition js_or :: "js_prim option \<Rightarrow> js_prim option \<Rightarrow> js_prim option" where
  "js_or a b = (if truthy a then a else b)"

text \<open>\<^verbatim>\<open>s.startsWith(p)\<close> and \<^verbatim>\<open>s.includes(p)\<close>.\<close>

definition startsWith :: "string \<Rightarrow> string \<Rightarrow> bool" where
  "startsWith s p = (take (length p) s = p)"

fun includes_str :: "string \<Rightarrow> string \<Rightarrow> bool" where
  "includes_str [] p = (p = [])"
| "includes_str (c # cs) p = (startsWith (c # cs) p \<or> includes_str cs p)"

text \<open>
  A \<^verbatim>\<open>Date\<close> is modelled by its local wall-clock reading in milliseconds, every calendar
  day having 86400000 of them (no daylight-saving shift).
  \<^verbatim>\<open>d.setDate(d.getDate() + n)\<close> moves the reading by \<open>n\<close> calendar days.
\<close>

type_synonym date = int

definition msPerDay :: int where
  "msPerDay = 86400000"

definition addDays :: "date \<Rightarrow> int \<Rightarrow> date" where
  "addDays d n = d + n * msPerDay"

text \<open>
  Array indexing \<^verbatim>\<open>xs[i]\<close> with an integer index: out of range it yields \<^verbatim>\<open>undefined\<close>.
  \<^verbatim>\<open>v || 1\<close> on an optional number replaces \<^verbatim>\<open>undefined\<close> and \<^verbatim>\<open>0\<close>.
\<close>

definition at_index :: "'a list \<Rightarrow> int \<Rightarrow> 'a option" where
  "at_index xs i = (if 0 \<le> i \<and> i < int (length xs) then Some (xs ! nat i) else None)"

definition num_or :: "int option \<Rightarrow> int \<Rightarrow> int" where
  "num_or v d = (case v of None \<Rightarrow> d | Some x \<Rightarrow> if x = 0 then d else x)"

text \<open>\<^verbatim>\<open>xs.findIndex(p)\<close>: the first index whose element satisfies \<open>p\<close> (\<open>None\<close> for \<^verbatim>\<open>-1\<close>).\<close>

fun findIndex :: "('a \<Rightarrow> bool) \<Rightarrow> 'a list \<Rightarrow> nat option" where
  "findIndex p [] = None"
| "findIndex p (x # xs) =
     (if p x then Some 0 else (case findIndex p xs of None \<Rightarrow> None | Some i \<Rightarrow> Some (Suc i)))"

section \<open>The word record (types.ts)\<close>

record WordDetails =
  word :: string
  ipa :: "string option"
  partOfSpeech :: string
  definition_text :: string
  example :: string
  collocations :: "string list"
  synonyms :: "string list"
  antonyms :: "string list"

text \<open>
  \<^verbatim>\<open>StoredWord extends WordDetails\<close>. The stage is a JavaScript number; the code only
  ever adds or subtracts one and clamps, so it is modelled as an integer.
\<close>

record StoredWord = WordDetails +
  word_id :: string
  userId :: string
  createdAt :: date
  nextReviewAt :: date
  srsStage :: int
  lastReviewedAt :: "date option"
  isInFFL :: "bool option"

section \<open>The two stores\<close>

text \<open>
  The remote document store holds, per user, the collection \<^verbatim>\<open>users/{userId}/words\<close>;
  a document is kept together with its document id (\<open>word_id\<close>).
  Local storage maps a key to a string; the string is modelled by what
  \<^verbatim>\<open>JSON.parse\<close> makes of it: either not an array of words, or the list of words that
  \<^verbatim>\<open>serializeWord\<close> wrote (the ISO-string form of the three timestamps is read back to
  the same instants).
\<close>

datatype local_item = NotWordArray | WordArray "StoredWord list"

record store =
  remote :: "string \<Rightarrow> StoredWord list"
  localStorage :: "string \<Rightarrow> local_item option"

text \<open>
  What one call of a service function meets outside the program: whether each remote
  operation throws (and what), the document id the remote store assigns, the readings of
  the clock, and the random suffix of a local id. The clock is read as \<open>now\<close> where the
  call begins and as \<open>nowInFallback\<close> inside a fallback; two \<^verbatim>\<open>new Date()\<close> in adjacent
  statements are taken as one reading. \<open>serverTimestamp\<close> is the time the remote store
  writes for \<^verbatim>\<open>serverTimestamp()\<close>.
\<close>

record db_env =
  getDocs_throws :: "js_error option"
  addDoc_throws :: "js_error option"
  updateDoc_throws :: "js_error option"
  newDocId :: string
  now :: date
  nowInFallback :: date
  serverTimestamp :: date
  localIdSuffix :: string

definition SRS_INTERVALS :: "int list" where
  "SRS_INTERVALS = [1, 3, 7, 14, 30, 90]"

definition LOCAL_STORAGE_PREFIX :: string where
  "LOCAL_STORAGE_PREFIX = ''vocab_master_data_''"

text \<open>\<^verbatim>\<open>deserializeWords(localData || '[]')\<close>: a missing item, a string that does not parse and
  a value that is not an array all give the empty list.\<close>

fun deserializeWords :: "local_item option \<Rightarrow> StoredWord list" where
  "deserializeWords None = []"
| "deserializeWords (Some NotWordArray) = []"
| "deserializeWords (Some (WordArray ws)) = ws"

definition localWords :: "store \<Rightarrow> string \<Rightarrow> StoredWord list" where
  "localWords st uid = deserializeWords (localStorage st (LOCAL_STORAGE_PREFIX @ uid))"

text \<open>\<^verbatim>\<open>localStorage.setItem(LOCAL_STORAGE_PREFIX + userId, JSON.stringify(ws.map(serializeWord)))\<close>\<close>

definition setLocalWords :: "store \<Rightarrow> string \<Rightarrow> StoredWord list \<Rightarrow> store" where
  "setLocalWords st uid ws =
     st\<lparr>localStorage := (localStorage st)(LOCAL_STORAGE_PREFIX @ uid := Some (WordArray ws))\<rparr>"

text \<open>
  \<^verbatim>\<open>updateDoc(doc(db, `users/${userId}/words`, wordId), fields)\<close>: throws what the
  environment says, throws \<^verbatim>\<open>not-found\<close> when no document has that id, and otherwise
  writes the fields into the document with that id.
\<close>

definition not_found :: js_error where
  "not_found = \<lparr>message = ''No document to update'', status = None, code = Some (JStr ''not-found'')\<rparr>"

definition updateDoc ::
  "db_env \<Rightarrow> string \<Rightarrow> string \<Rightarrow> (StoredWord \<Rightarrow> StoredWord) \<Rightarrow> store \<Rightarrow> js_error + store" where
  "updateDoc env uid wid f st =
     (case updateDoc_throws env of
        Some e \<Rightarrow> Inl e
      | None \<Rightarrow>
          if \<not> list_ex (\<lambda>w. word_id w = wid) (remote st uid) then Inl not_found
          else Inr (st\<lparr>remote := (remote st)
                 (uid := map (\<lambda>w. if word_id w = wid then f w else w) (remote st uid))\<rparr>))"

section \<open>Spaced repetition (updateWordProgress)\<close>

text \<open>The first half of \<^verbatim>\<open>updateWordProgress\<close>: the new stage and the next review date.\<close>

definition nextSchedule :: "bool \<Rightarrow> int \<Rightarrow> date \<Rightarrow> int \<times> date" where
  "nextSchedule isCorrect currentStage nextReviewDate =
     (if isCorrect then
        (let newStage = min (currentStage + 1) (int (length SRS_INTERVALS));
             daysToAdd = num_or (at_index SRS_INTERVALS
                           (min (newStage - 1) (int (length SRS_INTERVALS) - 1))) 1
         in (newStage, addDays nextReviewDate daysToAdd))
      else (max 0 (currentStage - 1), addDays nextReviewDate 0))"

text \<open>The fallback update of the local list: the first entry with the id, if there is one.\<close>

definition updateLocalProgress ::
  "db_env \<Rightarrow> string \<Rightarrow> string \<Rightarrow> int \<Rightarrow> date \<Rightarrow> store \<Rightarrow> store" where
  "updateLocalProgress env uid wid newStage nextReviewDate st =
     (let words = localWords st uid in
      case findIndex (\<lambda>w. word_id w = wid) words of
        None \<Rightarrow> st
      | Some idx \<Rightarrow>
          setLocalWords st uid
            (words[idx := (words ! idx)\<lparr>nextReviewAt := nextReviewDate, srsStage := newStage,
                                         lastReviewedAt := Some (nowInFallback env)\<rparr>]))"

definition updateWordProgress ::
  "db_env \<Rightarrow> string \<Rightarrow> string \<Rightarrow> bool \<Rightarrow> int \<Rightarrow> store \<Rightarrow> store" where
  "updateWordProgress env uid wid isCorrect currentStage st =
     (let (newStage, nextReviewDate) = nextSchedule isCorrect currentStage (now env);
          attempt =
            (if startsWith wid ''local_'' then Inl (Error ''Local ID, triggering fallback'')
             else updateDoc env uid wid
                    (\<lambda>w. w\<lparr>nextReviewAt := nextReviewDate, srsStage := newStage,
                            lastReviewedAt := Some (serverTimestamp env)\<rparr>) st)
      in case attempt of
           Inr st' \<Rightarrow> st'
         | Inl error \<Rightarrow>
             if startsWith wid ''local_'' \<or> truthy (code error)
             then updateLocalProgress env uid wid newStage nextReviewDate st
             else st)"

text \<open>Reading one stored word back by its id.\<close>

definition remoteDoc :: "store \<Rightarrow> string \<Rightarrow> string \<Rightarrow> StoredWord option" where
  "remoteDoc st uid wid = find (\<lambda>w. word_id w = wid) (remote st uid)"

definition localDoc :: "store \<Rightarrow> string \<Rightarrow> string \<Rightarrow> StoredWord option" where
  "localDoc st uid wid = find (\<lambda>w. word_id w = wid) (localWords st uid)"

section \<open>Saving and reading words (saveWordToProfile, getUserWords, getFFLWords)\<close>

definition isFirestoreError :: "js_error \<Rightarrow> bool" where
  "isFirestoreError error =
     (code error = Some (JStr ''permission-denied'') \<or>
      code error = Some (JStr ''unavailable'') \<or>
      code error = Some (JStr ''failed-precondition'') \<or>
      code error = Some (JStr ''not-found'') \<or>
      (message error \<noteq> [] \<and> includes_str (message error) ''permissions''))"

text \<open>The document written to the remote store; the store assigns its id.\<close>

definition newWord :: "db_env \<Rightarrow> string \<Rightarrow> WordDetails \<Rightarrow> StoredWord" where
  "newWord env uid wordData =
     \<lparr>word = word wordData, ipa = ipa wordData, partOfSpeech = partOfSpeech wordData,
      definition_text = definition_text wordData, example = example wordData,
      collocations = collocations wordData, synonyms = synonyms wordData,
      antonyms = antonyms wordData,
      word_id = newDocId env, userId = uid, createdAt = now env, nextReviewAt = now env,
      srsStage = 0, lastReviewedAt = None, isInFFL = Some False\<rparr>"

text \<open>The entry appended to the local list; its id is \<^verbatim>\<open>local_\<close> followed by a time stamp
  and a random suffix.\<close>

definition newLocalWord :: "db_env \<Rightarrow> string \<Rightarrow> WordDetails \<Rightarrow> StoredWord" where
  "newLocalWord env uid wordData =
     \<lparr>word = word wordData, ipa = ipa wordData, partOfSpeech = partOfSpeech wordData,
      definition_text = definition_text wordData, example = example wordData,
      collocations = collocations wordData, synonyms = synonyms wordData,
      antonyms = antonyms wordData,
      word_id = ''local_'' @ localIdSuffix env, userId = uid,
      createdAt = nowInFallback env, nextReviewAt = nowInFallback env,
      srsStage = 0, lastReviewedAt = None, isInFFL = Some False\<rparr>"

definition alreadySaved :: js_error where
  "alreadySaved = Error ''You have already saved this word.''"

text \<open>The \<^verbatim>\<open>try\<close> block of \<^verbatim>\<open>saveWordToProfile\<close>: query, duplicate check, \<^verbatim>\<open>addDoc\<close>.\<close>

definition saveRemote :: "db_env \<Rightarrow> string \<Rightarrow> WordDetails \<Rightarrow> store \<Rightarrow> js_error + store" where
  "saveRemote env uid wordData st =
     (case getDocs_throws env of
        Some e \<Rightarrow> Inl e
      | None \<Rightarrow>
          if filter (\<lambda>w. word w = word wordData) (remote st uid) \<noteq> [] then Inl alreadySaved
          else (case addDoc_throws env of
                  Some e \<Rightarrow> Inl e
                | None \<Rightarrow> Inr (st\<lparr>remote := (remote st)
                              (uid := remote st uid @ [newWord env uid wordData])\<rparr>)))"

text \<open>The fallback inside the \<^verbatim>\<open>catch\<close> block.\<close>

definition saveLocal :: "db_env \<Rightarrow> string \<Rightarrow> WordDetails \<Rightarrow> store \<Rightarrow> js_error + store" where
  "saveLocal env uid wordData st =
     (let words = localWords st uid in
      if list_ex (\<lambda>w. word w = word wordData) words then Inl alreadySaved
      else Inr (setLocalWords st uid (words @ [newLocalWord env uid wordData])))"

text \<open>The result is the returned value or the error thrown to the caller, and the stores
  after the call.\<close>

definition saveWordToProfile ::
  "db_env \<Rightarrow> string \<Rightarrow> WordDetails \<Rightarrow> store \<Rightarrow> (js_error + bool) \<times> store" where
  "saveWordToProfile env uid wordData st =
     (case saveRemote env uid wordData st of
        Inr st' \<Rightarrow> (Inr True, st')
      | Inl error \<Rightarrow>
          if isFirestoreError error then
            (case saveLocal env uid wordData st of
               Inl e \<Rightarrow> (Inl e, st)
             | Inr st' \<Rightarrow> (Inr True, st'))
          else (Inl error, st))"

definition getUserWords :: "db_env \<Rightarrow> string \<Rightarrow> store \<Rightarrow> StoredWord list" where
  "getUserWords env uid st =
     (case getDocs_throws env of
        None \<Rightarrow> remote st uid
      | Some e \<Rightarrow> localWords st uid)"

definition getDueWords :: "db_env \<Rightarrow> string \<Rightarrow> store \<Rightarrow> StoredWord list" where
  "getDueWords env uid st = filter (\<lambda>w. nextReviewAt w \<le> now env) (getUserWords env uid st)"

definition getFFLWords :: "db_env \<Rightarrow> string \<Rightarrow> store \<Rightarrow> StoredWord list" where
  "getFFLWords env uid st = filter (\<lambda>w. isInFFL w = Some True) (getUserWords env uid st)"

definition markWordAsForgot :: "db_env \<Rightarrow> string \<Rightarrow> string \<Rightarrow> store \<Rightarrow> store" where
  "markWordAsForgot env uid wid st =
     (let attempt =
            (if startsWith wid ''local_'' then Inl (Error ''Local ID'')
             else updateDoc env uid wid (\<lambda>w. w\<lparr>isInFFL := Some True\<rparr>) st)
      in case attempt of
           Inr st' \<Rightarrow> st'
         | Inl error \<Rightarrow>
             (let words = localWords st uid in
              case findIndex (\<lambda>w. word_id w = wid) words of
                None \<Rightarrow> st
              | Some idx \<Rightarrow>
                  setLocalWords st uid (words[idx := (words ! idx)\<lparr>isInFFL := Some True\<rparr>])))"

section \<open>The review screens (Quiz.tsx, Exam.tsx)\<close>

datatype QuizMode = due | ffl

record quiz_state =
  words :: "StoredWord list"
  loading :: bool
  currentIndex :: nat
  isFlipped :: bool
  isComplete :: bool

text \<open>
  \<^verbatim>\<open>loadWords\<close>: the words of the mode, shuffled by a sort with a random comparator
  (\<open>shuffle\<close> stands for the order it happens to produce), and the texts handed to
  \<^verbatim>\<open>onPrefetch\<close>.
\<close>

definition loadWords ::
  "(StoredWord list \<Rightarrow> StoredWord list) \<Rightarrow> db_env \<Rightarrow> string \<Rightarrow> QuizMode \<Rightarrow> store \<Rightarrow>
     quiz_state \<Rightarrow> quiz_state \<times> string list" where
  "loadWords shuffle env uid mode st qs =
     (let fetchedWords = (if mode = due then getDueWords env uid st else getFFLWords env uid st);
          shuffled = shuffle fetchedWords
      in (qs\<lparr>words := shuffled, loading := False\<rparr>, map word (take 2 shuffled)))"

text \<open>
  A handler reads \<^verbatim>\<open>words[currentIndex]\<close>; reading a property of the \<^verbatim>\<open>undefined\<close> it
  yields out of range throws a \<^verbatim>\<open>TypeError\<close>. The handlers return the screen state, the
  stores after the background write, and the texts handed to \<^verbatim>\<open>onPrefetch\<close>.
\<close>

definition typeError :: js_error where
  "typeError = Error ''Cannot read properties of undefined''"

text \<open>The part both handlers share: move to the next card or complete.\<close>

definition moveNext :: "'a quiz_state_scheme \<Rightarrow> 'a quiz_state_scheme \<times> string list" where
  "moveNext qs =
     (if int (currentIndex qs) < int (length (words qs)) - 1
      then (qs\<lparr>isFlipped := False, currentIndex := currentIndex qs + 1\<rparr>,
            (if currentIndex qs + 2 < length (words qs)
             then [word (words qs ! (currentIndex qs + 2))] else []))
      else (qs\<lparr>isComplete := True\<rparr>, []))"

definition handleResult ::
  "db_env \<Rightarrow> string \<Rightarrow> QuizMode \<Rightarrow> bool \<Rightarrow> quiz_state \<Rightarrow> store \<Rightarrow>
     js_error + (quiz_state \<times> store \<times> string list)" where
  "handleResult env uid mode correct qs st =
     (let currentWord = at_index (words qs) (int (currentIndex qs)) in
      if mode = due then
        (case currentWord of
           None \<Rightarrow> Inl typeError
         | Some w \<Rightarrow>
             (let st' = updateWordProgress env uid (word_id w) correct (srsStage w) st;
                  (qs', pre) = moveNext qs
              in Inr (qs', st', pre)))
      else (let (qs', pre) = moveNext qs in Inr (qs', st, pre)))"

record exam_state = quiz_state +
  forgotCount :: nat

definition handleNext ::
  "db_env \<Rightarrow> string \<Rightarrow> bool \<Rightarrow> exam_state \<Rightarrow> store \<Rightarrow>
     js_error + (exam_state \<times> store \<times> string list)" where
  "handleNext env uid forgot es st =
     (let currentWord = at_index (words es) (int (currentIndex es)) in
      if forgot then
        (case currentWord of
           None \<Rightarrow> Inl typeError
         | Some w \<Rightarrow>
             (let st' = markWordAsForgot env uid (word_id w) st;
                  (es', pre) = moveNext (es\<lparr>forgotCount := forgotCount es + 1\<rparr>)
              in Inr (es', st', pre)))
      else (let (es', pre) = moveNext es in Inr (es', st, pre)))"

section \<open>Text to speech with retries (geminiService.ts, fetchTtsAudio)\<close>

text \<open>
  What the remote model answers to one request: it throws, or it responds; of the
  response the code reads the first candidate (if any): the inline audio data and the text
  of its first part, and the finish reason.
\<close>

record tts_candidate =
  audioData :: "string option"
  textRefusal :: "string option"
  finishReason :: "string option"

datatype api_outcome = Throws js_error | Responds "tts_candidate option"

text \<open>What a call does that can be seen from outside: requests sent and delays waited (ms).\<close>

datatype tts_event = Request | Sleep int

text \<open>How the \<^verbatim>\<open>try\<close> block of one \<^verbatim>\<open>makeRequest\<close> ends: it returns the audio, it retries
  from inside the block (finish reason \<^verbatim>\<open>OTHER\<close>), or it throws into the \<^verbatim>\<open>catch\<close> block.\<close>

datatype attempt = Audio string | RetryOther | Caught js_error

definition str_truthy :: "string option \<Rightarrow> bool" where
  "str_truthy v = (case v of None \<Rightarrow> False | Some x \<Rightarrow> x \<noteq> [])"

definition attemptOnce :: "api_outcome \<Rightarrow> nat \<Rightarrow> attempt" where
  "attemptOnce outcome retryCount =
     (case outcome of
        Throws e \<Rightarrow> Caught e
      | Responds candidate \<Rightarrow>
          (let audio = (case candidate of None \<Rightarrow> None | Some c \<Rightarrow> audioData c);
               refusal = (case candidate of None \<Rightarrow> None | Some c \<Rightarrow> textRefusal c);
               reason = (case candidate of None \<Rightarrow> None | Some c \<Rightarrow> finishReason c)
           in if str_truthy audio then Audio (the audio)
              else if str_truthy refusal then Caught (Error ''Audio generation refused by model.'')
              else if str_truthy reason \<and> reason \<noteq> Some ''STOP'' then
                (if reason = Some ''OTHER'' \<and> retryCount < 2 then RetryOther
                 else Caught (Error (''Audio generation failed (Reason: '' @ the reason @ '')'')))
              else Caught (Error ''Failed to generate audio: Empty response'')))"

definition isRateLimit :: "js_error \<Rightarrow> bool" where
  "isRateLimit error =
     (js_or (status error) (code error) = Some (JNum 429) \<or>
      includes_str (message error) ''429'' \<or>
      includes_str (message error) ''RESOURCE_EXHAUSTED'' \<or>
      includes_str (message error) ''quota'')"

definition isServer :: "js_error \<Rightarrow> bool" where
  "isServer error =
     (js_or (status error) (code error) = Some (JNum 500) \<or>
      js_or (status error) (code error) = Some (JNum 503))"

definition isOther :: "js_error \<Rightarrow> bool" where
  "isOther error = includes_str (message error) ''OTHER''"

definition isRetryable :: "js_error \<Rightarrow> bool" where
  "isRetryable error = (isRateLimit error \<or> isServer error \<or> isOther error)"

definition maxRetries :: "js_error \<Rightarrow> nat" where
  "maxRetries error = (if isRateLimit error then 3 else 2)"

definition baseDelay :: "js_error \<Rightarrow> int" where
  "baseDelay error = (if isRateLimit error then 2000 else 1000)"

definition quotaExceeded :: js_error where
  "quotaExceeded = Error ''Voice service quota exceeded. Please try again later.''"

text \<open>What the \<^verbatim>\<open>catch\<close> block throws when it does not retry.\<close>

definition finalError :: "js_error \<Rightarrow> js_error" where
  "finalError error =
     (if isRateLimit error then quotaExceeded
      else Error (if message error = [] then ''TTS Service Unavailable'' else message error))"

definition after :: "tts_event list \<Rightarrow> 'a \<times> tts_event list \<Rightarrow> 'a \<times> tts_event list" where
  "after evs r = (fst r, evs @ snd r)"

text \<open>
  \<^verbatim>\<open>makeRequest(retryCount)\<close>; \<open>api n\<close> is the answer to the request sent with retry
  count \<open>n\<close>. The result is the returned audio or the thrown error, with the events.
\<close>

function makeRequest :: "(nat \<Rightarrow> api_outcome) \<Rightarrow> nat \<Rightarrow> (js_error + string) \<times> tts_event list" where
  "makeRequest api retryCount =
     (case attemptOnce (api retryCount) retryCount of
        Audio a \<Rightarrow> (Inr a, [Request])
      | RetryOther \<Rightarrow>
          after [Request, Sleep (1000 * (int retryCount + 1))] (makeRequest api (retryCount + 1))
      | Caught error \<Rightarrow>
          if isRetryable error \<and> retryCount < maxRetries error
          then after [Request, Sleep (baseDelay error * 2 ^ retryCount)]
                 (makeRequest api (retryCount + 1))
          else (Inl (finalError error), [Request]))"
  by pat_completeness auto
termination
proof (relation "measure (\<lambda>(api, retryCount). 3 - retryCount)")
  show "wf (measure (\<lambda>(api, retryCount). 3 - retryCount))" by simp
next
  fix api :: "nat \<Rightarrow> api_outcome" and retryCount :: nat
  assume "attemptOnce (api retryCount) retryCount = RetryOther"
  then have "retryCount < 2"
    by (auto simp: attemptOnce_def Let_def split: api_outcome.splits if_splits)
  then show "((api, retryCount + 1), (api, retryCount)) \<in> measure (\<lambda>(api, retryCount). 3 - retryCount)"
    by simp
next
  fix api :: "nat \<Rightarrow> api_outcome" and retryCount :: nat and x3 :: js_error
  assume "isRetryable x3 \<and> retryCount < maxRetries x3"
  then have "retryCount < 3"
    by (auto simp: maxRetries_def split: if_splits)
  then show "((api, retryCount + 1), (api, retryCount)) \<in> measure (\<lambda>(api, retryCount). 3 - retryCount)"
    by simp
qed

declare makeRequest.simps [simp del]

text \<open>\<^verbatim>\<open>s.trim()\<close> and \<^verbatim>\<open>s.toLowerCase()\<close> on strings of Latin-1 characters.\<close>

definition isSpace :: "char \<Rightarrow> bool" where
  "isSpace c = ((of_char c :: nat) \<in> {9, 10, 11, 12, 13, 32, 160})"

definition trim :: "string \<Rightarrow> string" where
  "trim s = rev (dropWhile isSpace (rev (dropWhile isSpace s)))"

definition lowerChar :: "char \<Rightarrow> char" where
  "lowerChar c =
     (let n = (of_char c :: nat)
      in if (65 \<le> n \<and> n \<le> 90) \<or> (192 \<le> n \<and> n \<le> 214) \<or> (216 \<le> n \<and> n \<le> 222)
         then char_of (n + 32) else c)"

definition toLowerCase :: "string \<Rightarrow> string" where
  "toLowerCase s = map lowerChar s"

text \<open>\<^verbatim>\<open>getClient\<close> throws without an API key; the text is trimmed and must not be empty.\<close>

definition fetchTtsAudio ::
  "string option \<Rightarrow> (string \<Rightarrow> nat \<Rightarrow> api_outcome) \<Rightarrow> string \<Rightarrow> (js_error + string) \<times> tts_event list" where
  "fetchTtsAudio apiKey api text =
     (if \<not> str_truthy apiKey then (Inl (Error ''API_KEY is missing in environment variables.''), [])
      else (let cleanText = trim text in
            if cleanText = [] then (Inl (Error ''Text is empty''), [])
            else makeRequest (api cleanText) 0))"

section \<open>The audio cache and playback (prefetchAudio, stopCurrentAudio, playText)\<close>

text \<open>
  A decoded buffer is its list of PCM samples. A source node is known by the number it
  was created with; \<open>sourceBuffers\<close> holds the buffer each source was given
  (\<^verbatim>\<open>source.buffer\<close>), in the order of creation, and \<open>sounding\<close> lists the sources that
  were started and have neither been stopped nor ended. \<open>ttsCalls\<close> counts the calls of
  \<^verbatim>\<open>fetchTtsAudio\<close> and \<open>ttsEvents\<close> collects what they did.
\<close>

type_synonym AudioBuffer = "int list"

record audio_state =
  playingWord :: "string option"
  audioContextRef :: bool
  audioCache :: "string \<Rightarrow> AudioBuffer option"
  activeSourceRef :: "nat option"
  created :: nat
  sourceBuffers :: "AudioBuffer list"
  sounding :: "nat list"
  ttsCalls :: nat
  ttsEvents :: "tts_event list"

text \<open>
  Outside the program: whether the browser has an \<^verbatim>\<open>AudioContext\<close>, the API key, the
  answers of the speech model (to the \<open>k\<close>-th call of \<^verbatim>\<open>fetchTtsAudio\<close>, for a text and a
  retry count), and what \<^verbatim>\<open>decodeAudioData\<close> makes of a base64 payload.
\<close>

record audio_env =
  audioSupported :: bool
  apiKey :: "string option"
  ttsApi :: "nat \<Rightarrow> string \<Rightarrow> nat \<Rightarrow> api_outcome"
  decodeAudioData :: "string \<Rightarrow> js_error + AudioBuffer"

definition getAudioContext :: "audio_env \<Rightarrow> audio_state \<Rightarrow> js_error + audio_state" where
  "getAudioContext env s =
     (if audioContextRef s then Inr s
      else if audioSupported env then Inr (s\<lparr>audioContextRef := True\<rparr>)
      else Inl (Error ''AudioContextClass is not a constructor''))"

text \<open>\<^verbatim>\<open>await fetchTtsAudio(text)\<close> followed by \<^verbatim>\<open>await decodeAudioData(base64Audio, ctx)\<close>.\<close>

definition fetchAndDecode :: "audio_env \<Rightarrow> string \<Rightarrow> audio_state \<Rightarrow> (js_error + AudioBuffer) \<times> audio_state" where
  "fetchAndDecode env text s =
     (let (r, evs) = fetchTtsAudio (apiKey env) (ttsApi env (ttsCalls s)) text;
          s1 = s\<lparr>ttsCalls := ttsCalls s + 1, ttsEvents := ttsEvents s @ evs\<rparr>
      in case r of
           Inl e \<Rightarrow> (Inl e, s1)
         | Inr base64Audio \<Rightarrow>
             (case decodeAudioData env base64Audio of
                Inl e \<Rightarrow> (Inl e, s1)
              | Inr buffer \<Rightarrow> (Inr buffer, s1)))"

definition stopCurrentAudio :: "audio_state \<Rightarrow> audio_state" where
  "stopCurrentAudio s =
     (case activeSourceRef s of
        None \<Rightarrow> s\<lparr>playingWord := None\<rparr>
      | Some src \<Rightarrow> s\<lparr>sounding := removeAll src (sounding s), activeSourceRef := None,
                       playingWord := None\<rparr>)"

text \<open>\<^verbatim>\<open>playAudioBuffer\<close>: a new source node is created, given the buffer and started.\<close>

definition playAudioBuffer :: "AudioBuffer \<Rightarrow> audio_state \<Rightarrow> nat \<times> audio_state" where
  "playAudioBuffer buffer s =
     (created s, s\<lparr>created := created s + 1, sourceBuffers := sourceBuffers s @ [buffer],
                    sounding := sounding s @ [created s]\<rparr>)"

text \<open>The \<^verbatim>\<open>onended\<close> handler of source \<open>src\<close>, when the source stops sounding by itself.\<close>

definition onended :: "nat \<Rightarrow> audio_state \<Rightarrow> audio_state" where
  "onended src s =
     (let s1 = s\<lparr>sounding := removeAll src (sounding s)\<rparr>
      in if activeSourceRef s1 = Some src then s1\<lparr>playingWord := None, activeSourceRef := None\<rparr>
         else s1)"

text \<open>
  \<^verbatim>\<open>prefetchAudio\<close> and \<^verbatim>\<open>playText\<close> are \<^verbatim>\<open>async\<close> functions: a call runs without
  interruption up to \<^verbatim>\<open>await fetchTtsAudio(text)\<close>, where other handlers can run, and
  later runs on to its end. A call waiting there is a \<open>suspended\<close> call; what the fetch
  does is recorded when the call resumes. The \<open>playingWord\<close> that \<^verbatim>\<open>playText\<close> compares
  with after the \<^verbatim>\<open>await\<close> is the value its closure holds, the state variable as it was
  when the call began (\<open>seen\<close>).

  The \<open>_begin\<close> functions run a call to its \<^verbatim>\<open>await\<close> (or to its end when nothing is
  awaited), \<open>resume\<close> runs the rest of a suspended call, and \<open>prefetchAudio\<close> and
  \<open>playText\<close> are calls that nothing interleaves with.
\<close>

datatype suspended = SuspendedPlay string "string option" | SuspendedPrefetch string

definition prefetchAudio_begin :: "audio_env \<Rightarrow> string \<Rightarrow> audio_state \<Rightarrow> audio_state \<times> suspended option" where
  "prefetchAudio_begin env text s =
     (if text = [] then (s, None)
      else (let cacheKey = toLowerCase (trim text) in
            if audioCache s cacheKey \<noteq> None then (s, None)
            else (case getAudioContext env s of
                    Inl e \<Rightarrow> (s, None)
                  | Inr s1 \<Rightarrow> (s1, Some (SuspendedPrefetch text)))))"

text \<open>The part of \<^verbatim>\<open>playText\<close> after the buffer is known.\<close>

definition playTail :: "string option \<Rightarrow> string \<Rightarrow> AudioBuffer \<Rightarrow> audio_state \<Rightarrow> audio_state" where
  "playTail seen text buffer s =
     (if seen \<noteq> None \<and> seen \<noteq> Some text then s
      else (let (source, s1) = playAudioBuffer buffer s in s1\<lparr>activeSourceRef := Some source\<rparr>))"

definition playText_begin :: "audio_env \<Rightarrow> string \<Rightarrow> audio_state \<Rightarrow> audio_state \<times> suspended option" where
  "playText_begin env text s =
     (if text = [] then (s, None)
      else (let seen = playingWord s;
                s1 = stopCurrentAudio s;
                cacheKey = toLowerCase (trim text);
                s2 = s1\<lparr>playingWord := Some text\<rparr>
            in case getAudioContext env s2 of
                 Inl e \<Rightarrow> (s2\<lparr>playingWord := None\<rparr>, None)
               | Inr s3 \<Rightarrow>
                   (case audioCache s3 cacheKey of
                      Some buffer \<Rightarrow> (playTail seen text buffer s3, None)
                    | None \<Rightarrow> (s3, Some (SuspendedPlay text seen)))))"

fun resume :: "audio_env \<Rightarrow> suspended \<Rightarrow> audio_state \<Rightarrow> audio_state" where
  "resume env (SuspendedPrefetch text) s =
     (case fetchAndDecode env text s of
        (Inl e, s1) \<Rightarrow> s1
      | (Inr buffer, s1) \<Rightarrow>
          s1\<lparr>audioCache := (audioCache s1)(toLowerCase (trim text) := Some buffer)\<rparr>)"
| "resume env (SuspendedPlay text seen) s =
     (case fetchAndDecode env text s of
        (Inl e, s1) \<Rightarrow> s1\<lparr>playingWord := None\<rparr>
      | (Inr buffer, s1) \<Rightarrow>
          playTail seen text buffer
            (s1\<lparr>audioCache := (audioCache s1)(toLowerCase (trim text) := Some buffer)\<rparr>))"

definition prefetchAudio :: "audio_env \<Rightarrow> string \<Rightarrow> audio_state \<Rightarrow> audio_state" where
  "prefetchAudio env text s =
     (case prefetchAudio_begin env text s of
        (s1, None) \<Rightarrow> s1
      | (s1, Some call) \<Rightarrow> resume env call s1)"

definition playText :: "audio_env \<Rightarrow> string \<Rightarrow> audio_state \<Rightarrow> audio_state" where
  "playText env text s =
     (case playText_begin env text s of
        (s1, None) \<Rightarrow> s1
      | (s1, Some call) \<Rightarrow> resume env call s1)"

text \<open>
  What can happen to the audio state, one event after the other: a call of \<^verbatim>\<open>playText\<close>
  or \<^verbatim>\<open>prefetchAudio\<close> begins, the \<open>i\<close>-th suspended call resumes, or a source ends.
\<close>

datatype audio_event = CallPlay string | CallPrefetch string | Resume nat | Ended nat

record session =
  audio :: audio_state
  suspendedCalls :: "suspended list"

definition suspend :: "session \<Rightarrow> audio_state \<times> suspended option \<Rightarrow> session" where
  "suspend ss r =
     (case r of
        (s1, None) \<Rightarrow> ss\<lparr>audio := s1\<rparr>
      | (s1, Some call) \<Rightarrow> ss\<lparr>audio := s1, suspendedCalls := suspendedCalls ss @ [call]\<rparr>)"

fun step :: "audio_env \<Rightarrow> audio_event \<Rightarrow> session \<Rightarrow> session" where
  "step env (CallPlay text) ss = suspend ss (playText_begin env text (audio ss))"
| "step env (CallPrefetch text) ss = suspend ss (prefetchAudio_begin env text (audio ss))"
| "step env (Resume i) ss =
     (if i < length (suspendedCalls ss)
      then \<lparr>audio = resume env (suspendedCalls ss ! i) (audio ss),
            suspendedCalls = take i (suspendedCalls ss) @ drop (Suc i) (suspendedCalls ss)\<rparr>
      else ss)"
| "step env (Ended src) ss = ss\<lparr>audio := onended src (audio ss)\<rparr>"

fun run :: "audio_env \<Rightarrow> audio_event list \<Rightarrow> session \<Rightarrow> session" where
  "run env [] ss = ss"
| "run env (ev # evs) ss = run env evs (step env ev ss)"

section \<open>Notions used in the statements\<close>

text \<open>The stage reached from stage \<open>s\<close> by \<open>n\<close> successful reviews.\<close>

fun stageAfterSuccesses :: "nat \<Rightarrow> int \<Rightarrow> int" where
  "stageAfterSuccesses 0 s = s"
| "stageAfterSuccesses (Suc n) s = fst (nextSchedule True (stageAfterSuccesses n s) 0)"

text \<open>The stores a handler leaves behind, if it does not throw.\<close>

definition resultStore :: "js_error + ('a \<times> store \<times> 'b) \<Rightarrow> store option" where
  "resultStore r = (case r of Inl e \<Rightarrow> None | Inr (qs, st, pre) \<Rightarrow> Some st)"

text \<open>The number of requests among the events of a call.\<close>

definition countRequests :: "tts_event list \<Rightarrow> nat" where
  "countRequests evs = length (filter (\<lambda>e. e = Request) evs)"

text \<open>At most one source sounds, and it is the one \<^verbatim>\<open>activeSourceRef\<close> holds.\<close>

definition singleSource :: "audio_state \<Rightarrow> bool" where
  "singleSource s =
     (case sounding s of
        [] \<Rightarrow> True
      | [a] \<Rightarrow> activeSourceRef s = Some a
      | _ \<Rightarrow> False)"

section \<open>Example data\<close>

text \<open>A word, stores holding given words for user \<^verbatim>\<open>u1\<close>, and an environment in which
  every remote operation succeeds.\<close>

definition exampleDetails :: WordDetails where
  "exampleDetails = \<lparr>word = ''apple'', ipa = Some ''ap'', partOfSpeech = ''noun'',
     definition_text = ''a fruit'', example = ''An apple a day.'', collocations = [''apple pie''],
     synonyms = [], antonyms = []\<rparr>"

definition exampleWord :: "string \<Rightarrow> int \<Rightarrow> StoredWord" where
  "exampleWord wid stage = \<lparr>word = ''apple'', ipa = Some ''ap'', partOfSpeech = ''noun'',
     definition_text = ''a fruit'', example = ''An apple a day.'', collocations = [''apple pie''],
     synonyms = [], antonyms = [], word_id = wid, userId = ''u1'', createdAt = 0,
     nextReviewAt = 0, srsStage = stage, lastReviewedAt = None, isInFFL = Some False\<rparr>"

definition remoteOnly :: "StoredWord list \<Rightarrow> store" where
  "remoteOnly ws = \<lparr>remote = (\<lambda>u. if u = ''u1'' then ws else []), localStorage = (\<lambda>k. None)\<rparr>"

definition localOnly :: "StoredWord list \<Rightarrow> store" where
  "localOnly ws = \<lparr>remote = (\<lambda>u. []),
     localStorage = (\<lambda>k. if k = ''vocab_master_data_u1'' then Some (WordArray ws) else None)\<rparr>"

definition onlineEnv :: db_env where
  "onlineEnv = \<lparr>getDocs_throws = None, addDoc_throws = None, updateDoc_throws = None,
     newDocId = ''doc9'', now = 1000, nowInFallback = 1001, serverTimestamp = 1002,
     localIdSuffix = ''1000_abc''\<rparr>"

definition offlineEnv :: db_env where
  "offlineEnv = \<lparr>getDocs_throws = Some \<lparr>message = ''Failed to get document because the client is offline.'',
                                       status = None, code = Some (JStr ''unavailable'')\<rparr>,
     addDoc_throws = None, updateDoc_throws = None,
     newDocId = ''doc9'', now = 1000, nowInFallback = 1001, serverTimestamp = 1002,
     localIdSuffix = ''1000_abc''\<rparr>"

definition brokenEnv :: db_env where
  "brokenEnv = \<lparr>getDocs_throws = Some (Error ''Unexpected failure''),
     addDoc_throws = None, updateDoc_throws = None,
     newDocId = ''doc9'', now = 1000, nowInFallback = 1001, serverTimestamp = 1002,
     localIdSuffix = ''1000_abc''\<rparr>"

definition exampleQuiz :: "StoredWord list \<Rightarrow> quiz_state" where
  "exampleQuiz ws = \<lparr>words = ws, loading = False, currentIndex = 0, isFlipped = True,
     isComplete = False\<rparr>"

definition exampleExam :: "StoredWord list \<Rightarrow> exam_state" where
  "exampleExam ws = \<lparr>words = ws, loading = False, currentIndex = 0, isFlipped = True,
     isComplete = False, forgotCount = 0\<rparr>"

definition updateFailsEnv :: db_env where
  "updateFailsEnv = \<lparr>getDocs_throws = None, addDoc_throws = None,
     updateDoc_throws = Some \<lparr>message = ''The service is currently unavailable.'',
                                status = None, code = Some (JStr ''unavailable'')\<rparr>,
     newDocId = ''doc9'', now = 1000, nowInFallback = 1001, serverTimestamp = 1002,
     localIdSuffix = ''1000_abc''\<rparr>"

definition tooManyRequests :: js_error where
  "tooManyRequests = \<lparr>message = ''Too Many Requests'', status = Some (JNum 429), code = None\<rparr>"

definition alwaysRateLimited :: "string \<Rightarrow> nat \<Rightarrow> api_outcome" where
  "alwaysRateLimited text n = Throws tooManyRequests"

text \<open>A browser with audio, a speech service that answers every request with audio, and
  the state of the application before any audio was requested.\<close>

definition speakingApi :: "nat \<Rightarrow> string \<Rightarrow> nat \<Rightarrow> api_outcome" where
  "speakingApi k text n =
     Responds (Some \<lparr>audioData = Some ''AAEC'', textRefusal = None, finishReason = Some ''STOP''\<rparr>)"

definition exampleAudioEnv :: audio_env where
  "exampleAudioEnv = \<lparr>audioSupported = True, apiKey = Some ''key'', ttsApi = speakingApi,
     decodeAudioData = (\<lambda>base64. Inr [256, 2])\<rparr>"

definition initialAudio :: audio_state where
  "initialAudio = \<lparr>playingWord = None, audioContextRef = False, audioCache = (\<lambda>k. None),
     activeSourceRef = None, created = 0, sourceBuffers = [], sounding = [], ttsCalls = 0,
     ttsEvents = []\<rparr>"

definition initialSession :: session where
  "initialSession = \<lparr>audio = initialAudio, suspendedCalls = []\<rparr>"

section \<open>Lists and lookups\<close>

lemma find_map_upd:
  "(\<And>w. p (f w) = p w) \<Longrightarrow> find p (map (\<lambda>w. if p w then f w else w) xs) = map_option f (find p xs)"
  by (induction xs) auto

lemma findIndex_None: "findIndex p xs = None \<longleftrightarrow> find p xs = None"
  by (induction xs) (auto split: option.splits)

lemma findIndex_Some_find:
  "findIndex p xs = Some i \<Longrightarrow> i < length xs \<and> find p xs = Some (xs ! i)"
  by (induction xs arbitrary: i) (auto split: option.splits if_splits)

lemma find_list_update:
  "findIndex p xs = Some i \<Longrightarrow> p v \<Longrightarrow> find p (xs[i := v]) = Some v"
  by (induction xs arbitrary: i) (auto split: option.splits if_splits)

lemma list_ex_find: "list_ex p xs \<longleftrightarrow> find p xs \<noteq> None"
  by (induction xs) auto

lemma localWords_setLocalWords: "localWords (setLocalWords st uid ws) uid = ws"
  by (simp add: localWords_def setLocalWords_def)

lemma remote_setLocalWords: "remote (setLocalWords st uid ws) = remote st"
  by (simp add: setLocalWords_def)

section \<open>What updateWordProgress stores\<close>

lemma updateWordProgress_remote:
  assumes "\<not> startsWith wid ''local_''" and "updateDoc_throws env = None"
    and "remoteDoc st uid wid = Some w0" and "nextSchedule c s (now env) = (ns, nr)"
  shows "remoteDoc (updateWordProgress env uid wid c s st) uid wid =
           Some (w0\<lparr>nextReviewAt := nr, srsStage := ns,
                     lastReviewedAt := Some (serverTimestamp env)\<rparr>)"
  using assms
  by (simp add: updateWordProgress_def updateDoc_def list_ex_find remoteDoc_def find_map_upd)

lemma updateWordProgress_local:
  assumes "startsWith wid ''local_'' \<or> (\<exists>e. updateDoc_throws env = Some e \<and> truthy (code e))
             \<or> (updateDoc_throws env = None \<and> remoteDoc st uid wid = None)"
    and "localDoc st uid wid = Some w0" and "nextSchedule c s (now env) = (ns, nr)"
  shows "localDoc (updateWordProgress env uid wid c s st) uid wid =
           Some (w0\<lparr>nextReviewAt := nr, srsStage := ns,
                     lastReviewedAt := Some (nowInFallback env)\<rparr>)"
proof -
  obtain i where i: "findIndex (\<lambda>w. word_id w = wid) (localWords st uid) = Some i"
    using assms(2) findIndex_None [of "\<lambda>w. word_id w = wid" "localWords st uid"]
    by (auto simp: localDoc_def)
  then have w0: "localWords st uid ! i = w0"
    using assms(2) findIndex_Some_find [OF i] by (simp add: localDoc_def)
  have "word_id w0 = wid"
    using assms(2) by (auto simp: localDoc_def find_Some_iff)
  then have p: "word_id (w0\<lparr>nextReviewAt := nr, srsStage := ns,
                     lastReviewedAt := Some (nowInFallback env)\<rparr>) = wid"
    by simp
  have upd: "localDoc (updateLocalProgress env uid wid ns nr st) uid wid =
           Some (w0\<lparr>nextReviewAt := nr, srsStage := ns,
                     lastReviewedAt := Some (nowInFallback env)\<rparr>)"
    using i w0 assms(2) findIndex_Some_find [OF i]
    by (simp add: updateLocalProgress_def localDoc_def localWords_setLocalWords
        find_list_update [OF i, of _, OF p])
  from assms(1) show ?thesis
  proof (elim disjE exE conjE)
    assume "startsWith wid ''local_''"
    then show ?thesis using upd assms(3) by (simp add: updateWordProgress_def)
  next
    fix e assume "updateDoc_throws env = Some e" "truthy (code e)"
    then show ?thesis using upd assms(3) by (simp add: updateWordProgress_def updateDoc_def)
  next
    assume "updateDoc_throws env = None" "remoteDoc st uid wid = None"
    then show ?thesis using upd assms(3)
      by (simp add: updateWordProgress_def updateDoc_def list_ex_find remoteDoc_def not_found_def)
  qed
qed

lemma nextSchedule_wrong: "nextSchedule False s t = (max 0 (s - 1), t)"
  by (simp add: nextSchedule_def addDays_def)

lemma successDays_cases:
  "num_or (at_index SRS_INTERVALS (min (min (s + 1) 6 - 1) 5)) 1 \<in> {1, 3, 7, 14, 30, 90}"
proof -
  consider "s < 0" | "s = 0" | "s = 1" | "s = 2" | "s = 3" | "s = 4" | "s \<ge> 5" by linarith
  then show ?thesis
    by cases (simp_all add: SRS_INTERVALS_def at_index_def num_or_def min_def)
qed

lemma nextSchedule_True:
  "nextSchedule True s t =
     (min (s + 1) 6, addDays t (num_or (at_index SRS_INTERVALS (min (min (s + 1) 6 - 1) 5)) 1))"
  by (simp add: nextSchedule_def Let_def SRS_INTERVALS_def)

lemma updateWordProgress_remote_set:
  assumes "w' \<in> set (remote (updateWordProgress env uid wid c s st) uid')"
  shows "w' \<in> set (remote st uid') \<or>
         (srsStage w', nextReviewAt w') = nextSchedule c s (now env)"
proof -
  obtain ns nr where sch: "nextSchedule c s (now env) = (ns, nr)" by (cases "nextSchedule c s (now env)")
  show ?thesis using assms sch
    by (auto simp: updateWordProgress_def updateDoc_def updateLocalProgress_def setLocalWords_def
        Let_def split: if_splits option.splits sum.splits)
qed

lemma updateWordProgress_local_set:
  assumes "w' \<in> set (localWords (updateWordProgress env uid wid c s st) uid')"
  shows "w' \<in> set (localWords st uid') \<or>
         (srsStage w', nextReviewAt w') = nextSchedule c s (now env)"
proof -
  obtain ns nr where sch: "nextSchedule c s (now env) = (ns, nr)" by (cases "nextSchedule c s (now env)")
  have upd: "w' \<in> set (localWords (updateLocalProgress env uid wid ns nr st) uid') \<Longrightarrow>
      w' \<in> set (localWords st uid') \<or> (srsStage w', nextReviewAt w') = (ns, nr)"
    by (auto simp: updateLocalProgress_def setLocalWords_def localWords_def Let_def
        split: option.splits if_splits dest!: set_update_subset_insert [THEN subsetD])
  show ?thesis using assms sch upd
    by (auto simp: updateWordProgress_def updateDoc_def localWords_def
        Let_def split: if_splits option.splits sum.splits)
qed

lemma nextSchedule_correct:
  "0 \<le> s \<Longrightarrow> nextSchedule True s t =
     (min (s + 1) 6, t + msPerDay * ([1, 3, 7, 14, 30, 90] ! nat (min (s + 1) 6 - 1)))"
proof -
  assume s: "0 \<le> s"
  consider "s = 0" | "s = 1" | "s = 2" | "s = 3" | "s = 4" | "s \<ge> 5" using s by linarith
  then show ?thesis
    by cases (simp_all add: nextSchedule_def SRS_INTERVALS_def at_index_def num_or_def
        addDays_def Let_def min_def)
qed

text \<open>
  Claim C1. A review recorded by \<^verbatim>\<open>updateWordProgress\<close> with a correct recall at stage
  \<open>s\<close> stores the stage advanced by one, capped at six (the length of the interval
  table), and a next-review date of the current time plus the table interval selected by
  the new stage: in the remote document when the remote update succeeds, and in the local
  entry when the id is local or the remote update fails with an error code. A word at
  stage 0 is due one day later, a word at the top of the table 90 days later.
\<close>

theorem C1_correct_recall_advances:
  assumes "0 \<le> s"
  shows "(\<not> startsWith wid ''local_'' \<and> updateDoc_throws env = None \<and> remoteDoc st uid wid \<noteq> None \<longrightarrow>
            map_option (\<lambda>w. (srsStage w, nextReviewAt w))
                (remoteDoc (updateWordProgress env uid wid True s st) uid wid) =
              Some (min (s + 1) 6,
                    addDays (now env) ([1, 3, 7, 14, 30, 90] ! nat (min (s + 1) 6 - 1))))
       \<and> ((startsWith wid ''local_'' \<or> (\<exists>e. updateDoc_throws env = Some e \<and> truthy (code e))
             \<or> (updateDoc_throws env = None \<and> remoteDoc st uid wid = None))
           \<and> localDoc st uid wid \<noteq> None \<longrightarrow>
            map_option (\<lambda>w. (srsStage w, nextReviewAt w))
                (localDoc (updateWordProgress env uid wid True s st) uid wid) =
              Some (min (s + 1) 6,
                    addDays (now env) ([1, 3, 7, 14, 30, 90] ! nat (min (s + 1) 6 - 1))))
       \<and> nextSchedule True 0 t = (1, addDays t 1)
       \<and> nextSchedule True 5 t = (6, addDays t 90)
       \<and> nextSchedule True 6 t = (6, addDays t 90)"
proof -
  let ?ns = "min (s + 1) 6"
  let ?nr = "addDays (now env) ([1, 3, 7, 14, 30, 90] ! nat (min (s + 1) 6 - 1))"
  have sch: "nextSchedule True s (now env) = (?ns, ?nr)"
    using nextSchedule_correct [OF assms, of "now env"] by (simp add: addDays_def mult.commute)
  have r: "map_option (\<lambda>w. (srsStage w, nextReviewAt w))
                (remoteDoc (updateWordProgress env uid wid True s st) uid wid) = Some (?ns, ?nr)"
    if a: "\<not> startsWith wid ''local_''" and b: "updateDoc_throws env = None"
      and c: "remoteDoc st uid wid \<noteq> None"
  proof -
    obtain w0 where "remoteDoc st uid wid = Some w0" using c by auto
    from updateWordProgress_remote [OF a b this sch] show ?thesis by simp
  qed
  have l: "map_option (\<lambda>w. (srsStage w, nextReviewAt w))
                (localDoc (updateWordProgress env uid wid True s st) uid wid) = Some (?ns, ?nr)"
    if a: "startsWith wid ''local_'' \<or> (\<exists>e. updateDoc_throws env = Some e \<and> truthy (code e))
             \<or> (updateDoc_throws env = None \<and> remoteDoc st uid wid = None)"
       and b: "localDoc st uid wid \<noteq> None"
  proof -
    obtain w0 where "localDoc st uid wid = Some w0" using b by auto
    from updateWordProgress_local [OF a this sch] show ?thesis by simp
  qed
  have p: "nextSchedule True 0 t = (1, addDays t 1)" "nextSchedule True 5 t = (6, addDays t 90)"
    "nextSchedule True 6 t = (6, addDays t 90)"
    by (simp_all add: nextSchedule_def SRS_INTERVALS_def at_index_def num_or_def Let_def)
  show ?thesis using r l p by blast
qed

theorem C1_correct_recall_advances_witness:
  "(0::int) \<le> 0 \<and> \<not> startsWith ''doc1'' ''local_'' \<and> updateDoc_throws onlineEnv = None
   \<and> remoteDoc (remoteOnly [exampleWord ''doc1'' 0]) ''u1'' ''doc1'' \<noteq> None
   \<and> map_option (\<lambda>w. (srsStage w, nextReviewAt w))
        (remoteDoc (updateWordProgress onlineEnv ''u1'' ''doc1'' True 0
           (remoteOnly [exampleWord ''doc1'' 0])) ''u1'' ''doc1'') = Some (1, 1000 + 86400000)
   \<and> (0::int) \<le> 5 \<and> startsWith ''local_7'' ''local_''
   \<and> localDoc (localOnly [exampleWord ''local_7'' 5]) ''u1'' ''local_7'' \<noteq> None
   \<and> map_option (\<lambda>w. (srsStage w, nextReviewAt w))
        (localDoc (updateWordProgress onlineEnv ''u1'' ''local_7'' True 5
           (localOnly [exampleWord ''local_7'' 5])) ''u1'' ''local_7'') = Some (6, 1000 + 90 * 86400000)"
  using C1_correct_recall_advances [of 0 "''doc1''" onlineEnv "remoteOnly [exampleWord ''doc1'' 0]" "''u1''" 0]
    C1_correct_recall_advances [of 5 "''local_7''" onlineEnv "localOnly [exampleWord ''local_7'' 5]" "''u1''" 0]
  by (simp add: startsWith_def onlineEnv_def remoteDoc_def localDoc_def remoteOnly_def localOnly_def
      exampleWord_def localWords_def LOCAL_STORAGE_PREFIX_def addDays_def msPerDay_def)

text \<open>
  Claim C2 says that a failed recall stores the stage regressed by one. At stage 0 the
  stored stage stays 0: the code takes the maximum with 0.
\<close>

theorem C2_failed_recall_at_stage_0_counterexample:
  "map_option srsStage
     (remoteDoc (updateWordProgress onlineEnv ''u1'' ''doc1'' False 0
        (remoteOnly [exampleWord ''doc1'' 0])) ''u1'' ''doc1'') = Some 0
   \<and> map_option srsStage
     (remoteDoc (updateWordProgress onlineEnv ''u1'' ''doc1'' False 0
        (remoteOnly [exampleWord ''doc1'' 0])) ''u1'' ''doc1'') \<noteq> Some (0 - 1)"
  by (simp add: updateWordProgress_def nextSchedule_def updateDoc_def remoteDoc_def remoteOnly_def
     exampleWord_def onlineEnv_def startsWith_def addDays_def)

text \<open>
  Claim C2, amended. A review recorded by \<^verbatim>\<open>updateWordProgress\<close> with a failed recall at
  stage \<open>s\<close> stores the stage regressed by one, but never below 0 (stage 0 stays 0), and a
  next-review date equal to the current time, so the word is due again at once: in the
  remote document when the remote update succeeds, and in the local entry when the id is
  local or the remote update fails with an error code.
\<close>

theorem C2_failed_recall_regresses:
  "(\<not> startsWith wid ''local_'' \<and> updateDoc_throws env = None \<and> remoteDoc st uid wid \<noteq> None \<longrightarrow>
       map_option (\<lambda>w. (srsStage w, nextReviewAt w))
           (remoteDoc (updateWordProgress env uid wid False s st) uid wid) =
         Some (if 1 \<le> s then s - 1 else 0, now env))
   \<and> ((startsWith wid ''local_'' \<or> (\<exists>e. updateDoc_throws env = Some e \<and> truthy (code e))
         \<or> (updateDoc_throws env = None \<and> remoteDoc st uid wid = None))
       \<and> localDoc st uid wid \<noteq> None \<longrightarrow>
       map_option (\<lambda>w. (srsStage w, nextReviewAt w))
           (localDoc (updateWordProgress env uid wid False s st) uid wid) =
         Some (if 1 \<le> s then s - 1 else 0, now env))"
proof -
  let ?ns = "if 1 \<le> s then s - 1 else 0"
  have sch: "nextSchedule False s (now env) = (?ns, now env)"
    by (simp add: nextSchedule_wrong max_def)
  have r: "map_option (\<lambda>w. (srsStage w, nextReviewAt w))
                (remoteDoc (updateWordProgress env uid wid False s st) uid wid) = Some (?ns, now env)"
    if a: "\<not> startsWith wid ''local_''" and b: "updateDoc_throws env = None"
      and c: "remoteDoc st uid wid \<noteq> None"
  proof -
    obtain w0 where "remoteDoc st uid wid = Some w0" using c by auto
    from updateWordProgress_remote [OF a b this sch] show ?thesis by simp
  qed
  have l: "map_option (\<lambda>w. (srsStage w, nextReviewAt w))
                (localDoc (updateWordProgress env uid wid False s st) uid wid) = Some (?ns, now env)"
    if a: "startsWith wid ''local_'' \<or> (\<exists>e. updateDoc_throws env = Some e \<and> truthy (code e))
             \<or> (updateDoc_throws env = None \<and> remoteDoc st uid wid = None)"
       and b: "localDoc st uid wid \<noteq> None"
  proof -
    obtain w0 where "localDoc st uid wid = Some w0" using b by auto
    from updateWordProgress_local [OF a this sch] show ?thesis by simp
  qed
  show ?thesis using r l by blast
qed

theorem C2_failed_recall_regresses_witness:
  "\<not> startsWith ''doc1'' ''local_'' \<and> updateDoc_throws onlineEnv = None
   \<and> remoteDoc (remoteOnly [exampleWord ''doc1'' 3]) ''u1'' ''doc1'' \<noteq> None
   \<and> map_option (\<lambda>w. (srsStage w, nextReviewAt w))
        (remoteDoc (updateWordProgress onlineEnv ''u1'' ''doc1'' False 3
           (remoteOnly [exampleWord ''doc1'' 3])) ''u1'' ''doc1'') = Some (2, 1000)
   \<and> startsWith ''local_7'' ''local_''
   \<and> localDoc (localOnly [exampleWord ''local_7'' 0]) ''u1'' ''local_7'' \<noteq> None
   \<and> map_option (\<lambda>w. (srsStage w, nextReviewAt w))
        (localDoc (updateWordProgress onlineEnv ''u1'' ''local_7'' False 0
           (localOnly [exampleWord ''local_7'' 0])) ''u1'' ''local_7'') = Some (0, 1000)"
  using C2_failed_recall_regresses [of "''doc1''" onlineEnv "remoteOnly [exampleWord ''doc1'' 3]" "''u1''" 3]
    C2_failed_recall_regresses [of "''local_7''" onlineEnv "localOnly [exampleWord ''local_7'' 0]" "''u1''" 0]
  by (simp add: startsWith_def onlineEnv_def remoteDoc_def localDoc_def remoteOnly_def localOnly_def
      exampleWord_def localWords_def LOCAL_STORAGE_PREFIX_def)

text \<open>After \<open>n\<close> successful reviews a new word is at stage \<open>min n 6\<close>.\<close>

lemma stageAfterSuccesses_0: "stageAfterSuccesses n 0 = min (int n) 6"
proof (induction n)
  case 0 show ?case by simp
next
  case (Suc n)
  then show ?case by (simp add: nextSchedule_True min_def)
qed

text \<open>
  Claim C8 says that at every stage reachable by successful reviews one further
  successful recall schedules a strictly greater interval. Stages 5 and 6 are reached by
  five and six successful reviews, and a successful recall schedules 90 days at both.
\<close>

theorem C8_interval_saturates_counterexample:
  "stageAfterSuccesses 5 0 = 5 \<and> stageAfterSuccesses 6 0 = 6
   \<and> snd (nextSchedule True (stageAfterSuccesses 5 0) 0) = 90 * msPerDay
   \<and> snd (nextSchedule True (stageAfterSuccesses 6 0) 0) = 90 * msPerDay
   \<and> \<not> snd (nextSchedule True (stageAfterSuccesses 5 0) 0)
        < snd (nextSchedule True (stageAfterSuccesses 6 0) 0)"
  by (simp add: stageAfterSuccesses_0 nextSchedule_def SRS_INTERVALS_def at_index_def num_or_def
      Let_def addDays_def)

text \<open>
  Claim C8, amended. At the stage reached by \<open>n < 5\<close> successful reviews of a new word,
  the interval scheduled after one further successful recall is strictly greater than
  the interval scheduled at that stage; from five successful reviews on, the interval
  stays at 90 days. At every stage the next-review time scheduled by a failed recall is
  not later than the one a successful recall would schedule.
\<close>

theorem C8_intervals_grow_then_saturate:
  "(n < 5 \<longrightarrow> snd (nextSchedule True (stageAfterSuccesses n 0) t) - t
               < snd (nextSchedule True (stageAfterSuccesses (Suc n) 0) t') - t')
   \<and> (5 \<le> n \<longrightarrow> snd (nextSchedule True (stageAfterSuccesses n 0) t) - t = 90 * msPerDay
               \<and> snd (nextSchedule True (stageAfterSuccesses (Suc n) 0) t') - t' = 90 * msPerDay)
   \<and> snd (nextSchedule False s t) \<le> snd (nextSchedule True s t)"
proof (intro conjI impI)
  assume "n < 5"
  then consider "n = 0" | "n = 1" | "n = 2" | "n = 3" | "n = 4" by linarith
  then show "snd (nextSchedule True (stageAfterSuccesses n 0) t) - t
               < snd (nextSchedule True (stageAfterSuccesses (Suc n) 0) t') - t'"
    by cases (simp_all add: stageAfterSuccesses_0 nextSchedule_True SRS_INTERVALS_def at_index_def
        num_or_def addDays_def msPerDay_def del: stageAfterSuccesses.simps)
next
  assume n: "5 \<le> n"
  then consider "n = 5" | "6 \<le> n" by linarith
  then show "snd (nextSchedule True (stageAfterSuccesses n 0) t) - t = 90 * msPerDay"
    by cases (simp_all add: stageAfterSuccesses_0 nextSchedule_True SRS_INTERVALS_def at_index_def
        num_or_def addDays_def min_def del: stageAfterSuccesses.simps)
  from n show "snd (nextSchedule True (stageAfterSuccesses (Suc n) 0) t') - t' = 90 * msPerDay"
    by (simp add: stageAfterSuccesses_0 nextSchedule_True SRS_INTERVALS_def at_index_def
        num_or_def addDays_def min_def del: stageAfterSuccesses.simps)
next
  have "num_or (at_index SRS_INTERVALS (min (min (s + 1) 6 - 1) 5)) 1 \<ge> 1"
    using successDays_cases [of s] by auto
  then show "snd (nextSchedule False s t) \<le> snd (nextSchedule True s t)"
    by (simp add: nextSchedule_True nextSchedule_wrong addDays_def msPerDay_def)
qed

theorem C8_intervals_grow_then_saturate_witness:
  "(2::nat) < 5
   \<and> snd (nextSchedule True (stageAfterSuccesses 2 0) 0) - 0 = 7 * msPerDay
   \<and> snd (nextSchedule True (stageAfterSuccesses (Suc 2) 0) 0) - 0 = 14 * msPerDay
   \<and> snd (nextSchedule True (stageAfterSuccesses 2 0) 0) - 0
       < snd (nextSchedule True (stageAfterSuccesses (Suc 2) 0) 0) - 0
   \<and> (5::nat) \<le> 7
   \<and> snd (nextSchedule True (stageAfterSuccesses 7 0) 0) - 0 = 90 * msPerDay
   \<and> snd (nextSchedule False 3 1000) \<le> snd (nextSchedule True 3 1000)"
  using C8_intervals_grow_then_saturate [of 2 0 0 3 ] C8_intervals_grow_then_saturate [of 7 0 0 3]
     C8_intervals_grow_then_saturate [of 7 1000 0 3]
  by (simp add: stageAfterSuccesses_0 nextSchedule_True SRS_INTERVALS_def at_index_def
        num_or_def addDays_def msPerDay_def del: stageAfterSuccesses.simps)

text \<open>
  Claim C10. With a current stage between 0 and 6 the new stage is between 0 and 6; a
  correct answer at stage 5 gives stage 6 with 90 days; the delay is one of 1, 3, 7, 14,
  30 and 90 days after a success and 0 days after a failure; and this holds of every
  entry the call writes into the remote store or the local list.
\<close>

theorem C10_stage_and_delay_bounds:
  assumes "0 \<le> s" and "s \<le> 6"
  shows "0 \<le> fst (nextSchedule c s t) \<and> fst (nextSchedule c s t) \<le> 6
     \<and> nextSchedule True 5 t = (6, addDays t 90)
     \<and> (if c then snd (nextSchedule c s t) \<in> addDays t ` {1, 3, 7, 14, 30, 90}
         else snd (nextSchedule c s t) = addDays t 0)
     \<and> (\<forall>w \<in> set (remote (updateWordProgress env uid wid c s st) uid') - set (remote st uid').
           0 \<le> srsStage w \<and> srsStage w \<le> 6 \<and>
           (if c then nextReviewAt w \<in> addDays (now env) ` {1, 3, 7, 14, 30, 90}
            else nextReviewAt w = addDays (now env) 0))
     \<and> (\<forall>w \<in> set (localWords (updateWordProgress env uid wid c s st) uid') - set (localWords st uid').
           0 \<le> srsStage w \<and> srsStage w \<le> 6 \<and>
           (if c then nextReviewAt w \<in> addDays (now env) ` {1, 3, 7, 14, 30, 90}
            else nextReviewAt w = addDays (now env) 0))"
proof -
  have stage: "0 \<le> fst (nextSchedule c s t) \<and> fst (nextSchedule c s t) \<le> 6" for t
    using assms by (cases c) (simp_all add: nextSchedule_True nextSchedule_wrong)
  have top: "nextSchedule True 5 t = (6, addDays t 90)"
    by (simp add: nextSchedule_True SRS_INTERVALS_def at_index_def num_or_def)
  have delay: "if c then snd (nextSchedule c s t) \<in> addDays t ` {1, 3, 7, 14, 30, 90}
         else snd (nextSchedule c s t) = addDays t 0" for t
    using successDays_cases [of s]
    by (cases c) (auto simp: nextSchedule_True nextSchedule_wrong addDays_def)
  have written: "0 \<le> srsStage w \<and> srsStage w \<le> 6 \<and>
           (if c then nextReviewAt w \<in> addDays (now env) ` {1, 3, 7, 14, 30, 90}
            else nextReviewAt w = addDays (now env) 0)"
    if "(srsStage w, nextReviewAt w) = nextSchedule c s (now env)" for w
  proof -
    have "fst (nextSchedule c s (now env)) = srsStage w"
      and "snd (nextSchedule c s (now env)) = nextReviewAt w"
      using that [symmetric] by simp_all
    then show ?thesis using stage [of "now env"] delay [of "now env"] by metis
  qed
  show ?thesis
    using stage [of t] top delay [of t] written
      updateWordProgress_remote_set [of _ env uid wid c s st uid']
      updateWordProgress_local_set [of _ env uid wid c s st uid']
    by blast
qed

theorem C10_stage_and_delay_bounds_witness:
  "(0::int) \<le> 5 \<and> (5::int) \<le> 6
   \<and> nextSchedule True 5 1000 = (6, 1000 + 90 * 86400000)
   \<and> nextSchedule False 0 1000 = (0, 1000)
   \<and> 0 \<le> fst (nextSchedule True 5 1000) \<and> fst (nextSchedule True 5 1000) \<le> 6
   \<and> map (\<lambda>w. (srsStage w, nextReviewAt w))
        (remote (updateWordProgress onlineEnv ''u1'' ''doc1'' True 5
           (remoteOnly [exampleWord ''doc1'' 5])) ''u1'') = [(6, 1000 + 90 * 86400000)]"
  using C10_stage_and_delay_bounds [of 5 True 1000 onlineEnv "''u1''" "''doc1''"
      "remoteOnly [exampleWord ''doc1'' 5]" "''u1''"]
    C10_stage_and_delay_bounds [of 0 False 1000 onlineEnv "''u1''" "''doc1''"
      "remoteOnly [exampleWord ''doc1'' 5]" "''u1''"]
  by (simp add: nextSchedule_True nextSchedule_wrong SRS_INTERVALS_def at_index_def num_or_def
      addDays_def msPerDay_def updateWordProgress_def updateDoc_def startsWith_def onlineEnv_def
      remoteOnly_def exampleWord_def)

section \<open>Saving a word\<close>

lemma isFirestoreError_iff:
  "isFirestoreError error \<longleftrightarrow>
     code error \<in> {Some (JStr ''permission-denied''), Some (JStr ''unavailable''),
                   Some (JStr ''failed-precondition''), Some (JStr ''not-found'')}
     \<or> includes_str (message error) ''permissions''"
  by (cases "message error") (auto simp: isFirestoreError_def)

lemma alreadySaved_not_Firestore: "\<not> isFirestoreError alreadySaved"
  by (simp add: isFirestoreError_def alreadySaved_def Error_def startsWith_def)

text \<open>
  Claim C3 says that whenever the remote write fails with one of the listed errors the
  word is appended to the local list and the call returns true. When the local list
  already holds the word, the call throws instead and the list is left as it was.
\<close>

theorem C3_fallback_duplicate_counterexample:
  "getDocs_throws offlineEnv =
     Some \<lparr>message = ''Failed to get document because the client is offline.'',
           status = None, code = Some (JStr ''unavailable'')\<rparr>
   \<and> saveWordToProfile offlineEnv ''u1'' exampleDetails (localOnly [exampleWord ''local_7'' 0]) =
       (Inl (Error ''You have already saved this word.''), localOnly [exampleWord ''local_7'' 0])
   \<and> fst (saveWordToProfile offlineEnv ''u1'' exampleDetails (localOnly [exampleWord ''local_7'' 0]))
       \<noteq> Inr True"
  by (simp add: saveWordToProfile_def saveRemote_def saveLocal_def isFirestoreError_def
      offlineEnv_def localOnly_def exampleWord_def exampleDetails_def localWords_def
      LOCAL_STORAGE_PREFIX_def alreadySaved_def)

text \<open>
  Claim C3, amended. If the remote part of \<^verbatim>\<open>saveWordToProfile\<close> throws an error whose code
  is permission-denied, unavailable, failed-precondition or not-found, or whose message
  contains \<^verbatim>\<open>permissions\<close>, and the local list does not yet hold a word with the same text,
  the word is appended to the per-user local list with stage 0, next-review set to the
  current time and the forgotten flag false, the remote store is untouched, and the call
  returns true; if the local list already holds the word, the call throws
  \<^verbatim>\<open>You have already saved this word.\<close> and stores nothing. Any other error is rethrown.
\<close>

theorem C3_fallback_to_local_storage:
  assumes "saveRemote env uid wordData st = Inl error"
  shows "((code error \<in> {Some (JStr ''permission-denied''), Some (JStr ''unavailable''),
                         Some (JStr ''failed-precondition''), Some (JStr ''not-found'')}
           \<or> includes_str (message error) ''permissions'')
          \<and> \<not> list_ex (\<lambda>w. word w = word wordData) (localWords st uid) \<longrightarrow>
            fst (saveWordToProfile env uid wordData st) = Inr True
          \<and> remote (snd (saveWordToProfile env uid wordData st)) = remote st
          \<and> localWords (snd (saveWordToProfile env uid wordData st)) uid =
              localWords st uid @ [newLocalWord env uid wordData]
          \<and> word (newLocalWord env uid wordData) = word wordData
          \<and> srsStage (newLocalWord env uid wordData) = 0
          \<and> nextReviewAt (newLocalWord env uid wordData) = nowInFallback env
          \<and> isInFFL (newLocalWord env uid wordData) = Some False)
     \<and> ((code error \<in> {Some (JStr ''permission-denied''), Some (JStr ''unavailable''),
                         Some (JStr ''failed-precondition''), Some (JStr ''not-found'')}
           \<or> includes_str (message error) ''permissions'')
          \<and> list_ex (\<lambda>w. word w = word wordData) (localWords st uid) \<longrightarrow>
            saveWordToProfile env uid wordData st = (Inl alreadySaved, st))
     \<and> (\<not> (code error \<in> {Some (JStr ''permission-denied''), Some (JStr ''unavailable''),
                         Some (JStr ''failed-precondition''), Some (JStr ''not-found'')}
           \<or> includes_str (message error) ''permissions'') \<longrightarrow>
            saveWordToProfile env uid wordData st = (Inl error, st))"
  using assms
  unfolding isFirestoreError_iff [symmetric]
  by (simp add: saveWordToProfile_def saveLocal_def localWords_setLocalWords
      remote_setLocalWords newLocalWord_def)

theorem C3_fallback_to_local_storage_witness:
  "saveRemote offlineEnv ''u1'' exampleDetails (localOnly []) =
      Inl \<lparr>message = ''Failed to get document because the client is offline.'',
            status = None, code = Some (JStr ''unavailable'')\<rparr>
   \<and> \<not> list_ex (\<lambda>w. word w = word exampleDetails) (localWords (localOnly []) ''u1'')
   \<and> fst (saveWordToProfile offlineEnv ''u1'' exampleDetails (localOnly [])) = Inr True
   \<and> map (\<lambda>w. (word w, word_id w, srsStage w, nextReviewAt w, isInFFL w))
        (localWords (snd (saveWordToProfile offlineEnv ''u1'' exampleDetails (localOnly []))) ''u1'') =
        [(''apple'', ''local_1000_abc'', 0, 1001, Some False)]
   \<and> list_ex (\<lambda>w. word w = word exampleDetails)
        (localWords (localOnly [exampleWord ''local_7'' 0]) ''u1'')
   \<and> saveWordToProfile offlineEnv ''u1'' exampleDetails (localOnly [exampleWord ''local_7'' 0]) =
        (Inl alreadySaved, localOnly [exampleWord ''local_7'' 0])
   \<and> saveRemote brokenEnv ''u1'' exampleDetails (localOnly []) = Inl (Error ''Unexpected failure'')
   \<and> saveWordToProfile brokenEnv ''u1'' exampleDetails (localOnly []) =
        (Inl (Error ''Unexpected failure''), localOnly [])"
  using
    C3_fallback_to_local_storage [of offlineEnv "''u1''" exampleDetails "localOnly []"
      "\<lparr>message = ''Failed to get document because the client is offline.'',
            status = None, code = Some (JStr ''unavailable'')\<rparr>"]
    C3_fallback_to_local_storage [of offlineEnv "''u1''" exampleDetails
      "localOnly [exampleWord ''local_7'' 0]"
      "\<lparr>message = ''Failed to get document because the client is offline.'',
            status = None, code = Some (JStr ''unavailable'')\<rparr>"]
    C3_fallback_to_local_storage [of brokenEnv "''u1''" exampleDetails "localOnly []"
      "Error ''Unexpected failure''"]
  by (simp add: saveRemote_def offlineEnv_def brokenEnv_def localOnly_def localWords_def
      LOCAL_STORAGE_PREFIX_def exampleDetails_def exampleWord_def newLocalWord_def Error_def
      startsWith_def)

text \<open>
  Claim C9. Saving a word whose text the consulted list already holds throws
  \<^verbatim>\<open>You have already saved this word.\<close> and leaves both stores as they were: when the
  remote query succeeds and finds the word in the remote list, and when the remote part
  fails with an error that triggers the fallback and the local list holds the word.
\<close>

theorem C9_duplicate_save_rejected:
  "(getDocs_throws env = None \<and> list_ex (\<lambda>w. word w = word wordData) (remote st uid) \<longrightarrow>
      saveWordToProfile env uid wordData st = (Inl alreadySaved, st))
   \<and> ((\<exists>error. saveRemote env uid wordData st = Inl error \<and> isFirestoreError error)
       \<and> list_ex (\<lambda>w. word w = word wordData) (localWords st uid) \<longrightarrow>
      saveWordToProfile env uid wordData st = (Inl alreadySaved, st))
   \<and> message alreadySaved = ''You have already saved this word.''"
proof (intro conjI impI)
  assume a: "getDocs_throws env = None \<and> list_ex (\<lambda>w. word w = word wordData) (remote st uid)"
  then have "filter (\<lambda>w. word w = word wordData) (remote st uid) \<noteq> []"
    by (auto simp: list_ex_iff filter_empty_conv)
  with a have "saveRemote env uid wordData st = Inl alreadySaved"
    by (simp add: saveRemote_def)
  then show "saveWordToProfile env uid wordData st = (Inl alreadySaved, st)"
    by (simp add: saveWordToProfile_def alreadySaved_not_Firestore)
next
  assume "(\<exists>error. saveRemote env uid wordData st = Inl error \<and> isFirestoreError error)
       \<and> list_ex (\<lambda>w. word w = word wordData) (localWords st uid)"
  then show "saveWordToProfile env uid wordData st = (Inl alreadySaved, st)"
    by (auto simp: saveWordToProfile_def saveLocal_def)
next
  show "message alreadySaved = ''You have already saved this word.''"
    by (simp add: alreadySaved_def Error_def)
qed

theorem C9_duplicate_save_rejected_witness:
  "getDocs_throws onlineEnv = None
   \<and> list_ex (\<lambda>w. word w = word exampleDetails) (remote (remoteOnly [exampleWord ''doc1'' 2]) ''u1'')
   \<and> saveWordToProfile onlineEnv ''u1'' exampleDetails (remoteOnly [exampleWord ''doc1'' 2]) =
        (Inl (Error ''You have already saved this word.''), remoteOnly [exampleWord ''doc1'' 2])
   \<and> saveRemote offlineEnv ''u1'' exampleDetails (localOnly [exampleWord ''local_7'' 0]) =
        Inl \<lparr>message = ''Failed to get document because the client is offline.'',
            status = None, code = Some (JStr ''unavailable'')\<rparr>
   \<and> isFirestoreError \<lparr>message = ''Failed to get document because the client is offline.'',
            status = None, code = Some (JStr ''unavailable'')\<rparr>
   \<and> list_ex (\<lambda>w. word w = word exampleDetails)
        (localWords (localOnly [exampleWord ''local_7'' 0]) ''u1'')
   \<and> saveWordToProfile offlineEnv ''u1'' exampleDetails (localOnly [exampleWord ''local_7'' 0]) =
        (Inl (Error ''You have already saved this word.''), localOnly [exampleWord ''local_7'' 0])"
  using
    C9_duplicate_save_rejected [of onlineEnv exampleDetails "remoteOnly [exampleWord ''doc1'' 2]" "''u1''"]
    C9_duplicate_save_rejected [of offlineEnv exampleDetails "localOnly [exampleWord ''local_7'' 0]" "''u1''"]
  by (simp add: saveRemote_def offlineEnv_def onlineEnv_def localOnly_def remoteOnly_def
      localWords_def LOCAL_STORAGE_PREFIX_def exampleDetails_def exampleWord_def alreadySaved_def
      isFirestoreError_def)

section \<open>The frequently forgot list\<close>

text \<open>
  Claim C4 says that every saved word the user fails to recall in a quiz review is
  flagged. A failed recall in the quiz (\<^verbatim>\<open>handleResult\<close> with \<open>correct = False\<close>) updates
  the schedule of the word and leaves its flag false, so the list of flagged words stays
  empty; and in the exam, when the remote update fails and the word is not in the local
  list, \<^verbatim>\<open>markWordAsForgot\<close> changes nothing.
\<close>

theorem C4_failed_quiz_recall_not_flagged_counterexample:
  "map_option (map isInFFL \<circ> getUserWords onlineEnv ''u1'')
      (resultStore (handleResult onlineEnv ''u1'' due False (exampleQuiz [exampleWord ''doc1'' 2])
                      (remoteOnly [exampleWord ''doc1'' 2]))) = Some [Some False]
   \<and> map_option (getFFLWords onlineEnv ''u1'')
      (resultStore (handleResult onlineEnv ''u1'' due False (exampleQuiz [exampleWord ''doc1'' 2])
                      (remoteOnly [exampleWord ''doc1'' 2]))) = Some []
   \<and> resultStore (handleNext updateFailsEnv ''u1'' True (exampleExam [exampleWord ''doc1'' 2])
                      (remoteOnly [exampleWord ''doc1'' 2])) = Some (remoteOnly [exampleWord ''doc1'' 2])
   \<and> getFFLWords onlineEnv ''u1'' (remoteOnly [exampleWord ''doc1'' 2]) = []"
  by (simp add: resultStore_def handleResult_def handleNext_def exampleQuiz_def exampleExam_def
      at_index_def moveNext_def updateWordProgress_def markWordAsForgot_def nextSchedule_def
      updateDoc_def startsWith_def onlineEnv_def updateFailsEnv_def remoteOnly_def exampleWord_def
      getFFLWords_def getUserWords_def addDays_def localWords_def LOCAL_STORAGE_PREFIX_def)

lemma markWordAsForgot_remote:
  assumes "\<not> startsWith wid ''local_''" and "updateDoc_throws env = None"
    and "remoteDoc st uid wid = Some w0"
  shows "remoteDoc (markWordAsForgot env uid wid st) uid wid = Some (w0\<lparr>isInFFL := Some True\<rparr>)"
  using assms
  by (simp add: markWordAsForgot_def updateDoc_def list_ex_find remoteDoc_def find_map_upd)

lemma markWordAsForgot_local:
  assumes "startsWith wid ''local_'' \<or> updateDoc_throws env \<noteq> None \<or> remoteDoc st uid wid = None"
    and "localDoc st uid wid = Some w0"
  shows "localDoc (markWordAsForgot env uid wid st) uid wid = Some (w0\<lparr>isInFFL := Some True\<rparr>)"
proof -
  obtain i where i: "findIndex (\<lambda>w. word_id w = wid) (localWords st uid) = Some i"
    using assms(2) findIndex_None [of "\<lambda>w. word_id w = wid" "localWords st uid"]
    by (auto simp: localDoc_def)
  then have w0: "localWords st uid ! i = w0"
    using assms(2) findIndex_Some_find [OF i] by (simp add: localDoc_def)
  have "word_id w0 = wid"
    using assms(2) by (auto simp: localDoc_def find_Some_iff)
  then have p: "word_id (w0\<lparr>isInFFL := Some True\<rparr>) = wid"
    by simp
  have fallback: "localDoc (setLocalWords st uid ((localWords st uid)
            [i := (localWords st uid ! i)\<lparr>isInFFL := Some True\<rparr>])) uid wid =
          Some (w0\<lparr>isInFFL := Some True\<rparr>)"
    using w0 by (simp add: localDoc_def localWords_setLocalWords find_list_update [OF i, of _, OF p])
  have "\<exists>e. (if startsWith wid ''local_'' then Inl (Error ''Local ID'')
             else updateDoc env uid wid (\<lambda>w. w\<lparr>isInFFL := Some True\<rparr>) st) = Inl e"
    using assms(1)
    by (auto simp: updateDoc_def list_ex_find remoteDoc_def split: option.splits)
  then show ?thesis using fallback i
    by (auto simp: markWordAsForgot_def Let_def)
qed

lemma map_isInFFL_update:
  "i < length xs \<Longrightarrow> isInFFL v = isInFFL (xs ! i) \<Longrightarrow> map isInFFL (xs[i := v]) = map isInFFL xs"
  by (simp add: map_update list_update_same_conv)

lemma map_isInFFL_map:
  "(\<And>w. isInFFL (f w) = isInFFL w) \<Longrightarrow>
     map isInFFL (map (\<lambda>w. if p w then f w else w) xs) = map isInFFL xs"
  by (induction xs) auto

lemma updateWordProgress_keeps_flags:
  "map isInFFL (remote (updateWordProgress env uid wid c s st) uid') = map isInFFL (remote st uid')"
  "map isInFFL (localWords (updateWordProgress env uid wid c s st) uid') =
     map isInFFL (localWords st uid')"
proof -
  obtain ns nr where sch: "nextSchedule c s (now env) = (ns, nr)"
    by (cases "nextSchedule c s (now env)")
  have r: "remote (updateLocalProgress env uid wid ns nr st) uid' = remote st uid'"
    by (simp add: updateLocalProgress_def Let_def remote_setLocalWords split: option.splits)
  have l: "map isInFFL (localWords (updateLocalProgress env uid wid ns nr st) uid') =
           map isInFFL (localWords st uid')"
  proof (cases "findIndex (\<lambda>w. word_id w = wid) (localWords st uid)")
    case None
    then show ?thesis by (simp add: updateLocalProgress_def)
  next
    case (Some i)
    from findIndex_Some_find [OF Some] have "i < length (localWords st uid)" by simp
    then show ?thesis using Some
    proof (cases "uid' = uid")
      case True
      with Some \<open>i < length (localWords st uid)\<close> show ?thesis
        by (simp add: updateLocalProgress_def Let_def localWords_setLocalWords map_isInFFL_update)
    next
      case False
      with Some show ?thesis
        by (simp add: updateLocalProgress_def Let_def localWords_def setLocalWords_def)
    qed
  qed
  show "map isInFFL (remote (updateWordProgress env uid wid c s st) uid') = map isInFFL (remote st uid')"
    using sch r
    by (auto simp: updateWordProgress_def updateDoc_def map_isInFFL_map
        split: sum.splits option.splits if_splits)
  show "map isInFFL (localWords (updateWordProgress env uid wid c s st) uid') =
     map isInFFL (localWords st uid')"
    using sch l
    by (auto simp: updateWordProgress_def updateDoc_def localWords_def
        split: sum.splits option.splits if_splits)
qed

text \<open>
  Claim C4, amended. Every saved word that the user marks as forgotten in an exam
  (\<^verbatim>\<open>handleNext\<close> with \<open>forgot = True\<close>) has its \<^verbatim>\<open>isInFFL\<close> flag set to true where the
  write arrives: in the remote document when the remote update succeeds, and in the local
  entry with that id when the id is local or the remote update fails. A quiz review
  (\<^verbatim>\<open>handleResult\<close>) changes no flag. The words of the FFL practice mode are exactly the
  user's words whose \<^verbatim>\<open>isInFFL\<close> flag is true, in the order the shuffle gives them.
\<close>

theorem C4_forgotten_in_exam_flagged:
  assumes "at_index (words es) (int (currentIndex es)) = Some w"
  shows "(\<not> startsWith (word_id w) ''local_'' \<and> updateDoc_throws env = None
            \<and> remoteDoc st uid (word_id w) \<noteq> None \<longrightarrow>
          (\<exists>st'. resultStore (handleNext env uid True es st) = Some st'
             \<and> map_option isInFFL (remoteDoc st' uid (word_id w)) = Some (Some True)))
     \<and> ((startsWith (word_id w) ''local_'' \<or> updateDoc_throws env \<noteq> None
            \<or> remoteDoc st uid (word_id w) = None)
          \<and> localDoc st uid (word_id w) \<noteq> None \<longrightarrow>
          (\<exists>st'. resultStore (handleNext env uid True es st) = Some st'
             \<and> map_option isInFFL (localDoc st' uid (word_id w)) = Some (Some True)))
     \<and> (\<forall>st'. resultStore (handleResult env uid mode correct qs st) = Some st' \<longrightarrow>
            map isInFFL (remote st' uid') = map isInFFL (remote st uid')
          \<and> map isInFFL (localWords st' uid') = map isInFFL (localWords st uid'))
     \<and> getFFLWords env uid st = filter (\<lambda>w. isInFFL w = Some True) (getUserWords env uid st)
     \<and> (mset (shuffle (getFFLWords env uid st)) = mset (getFFLWords env uid st) \<longrightarrow>
          mset (words (fst (loadWords shuffle env uid ffl st qs))) =
          mset (filter (\<lambda>w. isInFFL w = Some True) (getUserWords env uid st)))"
proof -
  have exam: "resultStore (handleNext env uid True es st) = Some (markWordAsForgot env uid (word_id w) st)"
    using assms by (simp add: handleNext_def resultStore_def Let_def split: prod.splits)
  have r: "map_option isInFFL (remoteDoc (markWordAsForgot env uid (word_id w) st) uid (word_id w))
            = Some (Some True)"
    if a: "\<not> startsWith (word_id w) ''local_''" and b: "updateDoc_throws env = None"
      and c: "remoteDoc st uid (word_id w) \<noteq> None"
  proof -
    obtain w0 where "remoteDoc st uid (word_id w) = Some w0" using c by auto
    from markWordAsForgot_remote [OF a b this] show ?thesis by simp
  qed
  have l: "map_option isInFFL (localDoc (markWordAsForgot env uid (word_id w) st) uid (word_id w))
            = Some (Some True)"
    if a: "startsWith (word_id w) ''local_'' \<or> updateDoc_throws env \<noteq> None
            \<or> remoteDoc st uid (word_id w) = None"
      and b: "localDoc st uid (word_id w) \<noteq> None"
  proof -
    obtain w0 where "localDoc st uid (word_id w) = Some w0" using b by auto
    from markWordAsForgot_local [OF a this] show ?thesis by simp
  qed
  have quiz: "map isInFFL (remote st' uid') = map isInFFL (remote st uid')
          \<and> map isInFFL (localWords st' uid') = map isInFFL (localWords st uid')"
    if "resultStore (handleResult env uid mode correct qs st) = Some st'" for st'
    using that updateWordProgress_keeps_flags [of env uid _ correct _ st uid']
    by (auto simp: handleResult_def resultStore_def Let_def
        split: if_splits option.splits prod.splits)
  have load: "words (fst (loadWords shuffle env uid ffl st qs)) = shuffle (getFFLWords env uid st)"
    by (simp add: loadWords_def Let_def)
  show ?thesis
    using exam r l quiz load by (simp add: getFFLWords_def)
qed

theorem C4_forgotten_in_exam_flagged_witness:
  "at_index (words (exampleExam [exampleWord ''doc1'' 2])) (int (currentIndex (exampleExam [exampleWord ''doc1'' 2])))
      = Some (exampleWord ''doc1'' 2)
   \<and> \<not> startsWith (word_id (exampleWord ''doc1'' 2)) ''local_'' \<and> updateDoc_throws onlineEnv = None
   \<and> remoteDoc (remoteOnly [exampleWord ''doc1'' 2]) ''u1'' ''doc1'' \<noteq> None
   \<and> map_option (map isInFFL \<circ> getFFLWords onlineEnv ''u1'')
        (resultStore (handleNext onlineEnv ''u1'' True (exampleExam [exampleWord ''doc1'' 2])
           (remoteOnly [exampleWord ''doc1'' 2]))) = Some [Some True]
   \<and> at_index (words (exampleExam [exampleWord ''local_7'' 2])) (int (currentIndex (exampleExam [exampleWord ''local_7'' 2])))
      = Some (exampleWord ''local_7'' 2)
   \<and> startsWith (word_id (exampleWord ''local_7'' 2)) ''local_''
   \<and> localDoc (localOnly [exampleWord ''local_7'' 2]) ''u1'' ''local_7'' \<noteq> None
   \<and> map_option (map isInFFL \<circ> getFFLWords offlineEnv ''u1'')
        (resultStore (handleNext offlineEnv ''u1'' True (exampleExam [exampleWord ''local_7'' 2])
           (localOnly [exampleWord ''local_7'' 2]))) = Some [Some True]
   \<and> resultStore (handleResult onlineEnv ''u1'' due False (exampleQuiz [exampleWord ''doc1'' 2])
        (remoteOnly [exampleWord ''doc1'' 2])) \<noteq> None
   \<and> mset (rev (getFFLWords onlineEnv ''u1'' (remoteOnly [exampleWord ''doc1'' 2])))
       = mset (getFFLWords onlineEnv ''u1'' (remoteOnly [exampleWord ''doc1'' 2]))
   \<and> words (fst (loadWords rev onlineEnv ''u1'' ffl (remoteOnly [exampleWord ''doc1'' 2])
        (exampleQuiz []))) = []"
  using
    C4_forgotten_in_exam_flagged [where es = "exampleExam [exampleWord ''doc1'' 2]"
      and w = "exampleWord ''doc1'' 2" and env = onlineEnv
      and st = "remoteOnly [exampleWord ''doc1'' 2]" and uid = "''u1''" and mode = due
      and correct = False and qs = "exampleQuiz [exampleWord ''doc1'' 2]" and uid' = "''u1''"
      and shuffle = rev]
    C4_forgotten_in_exam_flagged [where es = "exampleExam [exampleWord ''local_7'' 2]"
      and w = "exampleWord ''local_7'' 2" and env = offlineEnv
      and st = "localOnly [exampleWord ''local_7'' 2]" and uid = "''u1''" and mode = due
      and correct = False and qs = "exampleQuiz [exampleWord ''local_7'' 2]" and uid' = "''u1''"
      and shuffle = rev]
  by (simp add: resultStore_def handleResult_def handleNext_def exampleQuiz_def exampleExam_def
      at_index_def moveNext_def updateWordProgress_def markWordAsForgot_def nextSchedule_def
      updateDoc_def startsWith_def onlineEnv_def offlineEnv_def remoteOnly_def localOnly_def
      exampleWord_def getFFLWords_def getUserWords_def addDays_def localWords_def localDoc_def
      remoteDoc_def LOCAL_STORAGE_PREFIX_def setLocalWords_def loadWords_def)

section \<open>Retries of the speech request\<close>

lemma countRequests_after: "countRequests (snd (after evs r)) = countRequests evs + countRequests (snd r)"
  by (simp add: after_def countRequests_def)

lemma attemptOnce_RetryOther: "attemptOnce outcome n = RetryOther \<Longrightarrow> n < 2"
  by (auto simp: attemptOnce_def Let_def split: api_outcome.splits if_splits)

lemma maxRetries_le: "maxRetries e \<le> 3"
  by (simp add: maxRetries_def)

lemma makeRequest_bounded: "n \<le> 3 \<Longrightarrow> countRequests (snd (makeRequest api n)) + n \<le> 4"
proof (induction api n rule: makeRequest.induct)
  case (1 api retryCount)
  show ?case
  proof (cases "attemptOnce (api retryCount) retryCount")
    case (Audio a)
    with 1(3) show ?thesis
      by (subst makeRequest.simps) (simp add: countRequests_def)
  next
    case RetryOther
    then have "retryCount + 1 \<le> 3" using attemptOnce_RetryOther by fastforce
    from 1(1) [OF RetryOther this] RetryOther show ?thesis
      by (subst makeRequest.simps) (simp add: countRequests_after, simp add: countRequests_def)
  next
    case (Caught error)
    show ?thesis
    proof (cases "isRetryable error \<and> retryCount < maxRetries error")
      case True
      then have "retryCount + 1 \<le> 3" using maxRetries_le [of error] by linarith
      from 1(2) [OF Caught True this] Caught True show ?thesis
        by (subst makeRequest.simps) (simp add: countRequests_after, simp add: countRequests_def)
    next
      case False
      with Caught 1(3) show ?thesis
        by (subst makeRequest.simps) (auto simp: countRequests_def)
    qed
  qed
qed

lemma makeRequest_rate_limited_retry:
  assumes "attemptOnce (api n) n = Caught e" and "isRateLimit e" and "n < 3"
  shows "makeRequest api n = after [Request, Sleep (2000 * 2 ^ n)] (makeRequest api (n + 1))"
  using assms
  by (subst makeRequest.simps) (simp add: isRetryable_def maxRetries_def baseDelay_def)

lemma makeRequest_rate_limited_last:
  assumes "attemptOnce (api n) n = Caught e" and "isRateLimit e" and "3 \<le> n"
  shows "makeRequest api n = (Inl quotaExceeded, [Request])"
  using assms
  by (subst makeRequest.simps) (simp add: isRetryable_def maxRetries_def finalError_def)

lemma makeRequest_rate_limit_persists:
  assumes "\<forall>n\<le>3. \<exists>e. attemptOnce (api n) n = Caught e \<and> isRateLimit e"
  shows "makeRequest api 0 =
    (Inl quotaExceeded, [Request, Sleep 2000, Request, Sleep 4000, Request, Sleep 8000, Request])"
proof -
  have each: "\<exists>e. attemptOnce (api n) n = Caught e \<and> isRateLimit e" if "n \<le> 3" for n
    using assms that by blast
  obtain e0 where e0: "attemptOnce (api 0) 0 = Caught e0" "isRateLimit e0"
    using each [of 0] by auto
  obtain e1 where e1: "attemptOnce (api 1) 1 = Caught e1" "isRateLimit e1"
    using each [of 1] by auto
  obtain e2 where e2: "attemptOnce (api 2) 2 = Caught e2" "isRateLimit e2"
    using each [of 2] by auto
  obtain e3 where e3: "attemptOnce (api 3) 3 = Caught e3" "isRateLimit e3"
    using each [of 3] by auto
  have 3: "makeRequest api 3 = (Inl quotaExceeded, [Request])"
    using makeRequest_rate_limited_last [of api 3 e3] e3 by simp
  have 2: "makeRequest api 2 = (Inl quotaExceeded, [Request, Sleep 8000, Request])"
    using makeRequest_rate_limited_retry [of api 2 e2] e2 3 by (simp add: after_def eval_nat_numeral)
  have 1: "makeRequest api 1 = (Inl quotaExceeded, [Request, Sleep 4000, Request, Sleep 8000, Request])"
    using makeRequest_rate_limited_retry [of api 1 e1] e1 2 by (simp add: after_def eval_nat_numeral)
  show ?thesis
    using makeRequest_rate_limited_retry [of api 0 e0] e0 1 by (simp add: after_def eval_nat_numeral)
qed

text \<open>
  Claim C6. When every attempt of \<^verbatim>\<open>fetchTtsAudio\<close> meets a rate-limit error (status 429,
  or a message containing \<^verbatim>\<open>429\<close>, \<^verbatim>\<open>RESOURCE_EXHAUSTED\<close> or \<^verbatim>\<open>quota\<close>), the request is
  retried three times, after delays of 2, 4 and 8 seconds, and the call then throws
  \<^verbatim>\<open>Voice service quota exceeded. Please try again later.\<close>; and whatever the service
  answers, a call sends at most four requests.
\<close>

theorem C6_rate_limit_retries_bounded:
  "(str_truthy key \<and> trim text \<noteq> [] \<and>
      (\<forall>n\<le>3. \<exists>e. attemptOnce (api (trim text) n) n = Caught e \<and> isRateLimit e) \<longrightarrow>
      fetchTtsAudio key api text =
        (Inl quotaExceeded,
         [Request, Sleep 2000, Request, Sleep 4000, Request, Sleep 8000, Request]))
   \<and> countRequests (snd (fetchTtsAudio key api text)) \<le> 4
   \<and> message quotaExceeded = ''Voice service quota exceeded. Please try again later.''
   \<and> (isRateLimit e \<longleftrightarrow>
        js_or (status e) (code e) = Some (JNum 429) \<or> includes_str (message e) ''429'' \<or>
        includes_str (message e) ''RESOURCE_EXHAUSTED'' \<or> includes_str (message e) ''quota'')"
proof (intro conjI impI)
  assume a: "str_truthy key \<and> trim text \<noteq> [] \<and>
      (\<forall>n\<le>3. \<exists>e. attemptOnce (api (trim text) n) n = Caught e \<and> isRateLimit e)"
  then have "makeRequest (api (trim text)) 0 =
    (Inl quotaExceeded, [Request, Sleep 2000, Request, Sleep 4000, Request, Sleep 8000, Request])"
    using makeRequest_rate_limit_persists [of "api (trim text)"] by blast
  with a show "fetchTtsAudio key api text =
        (Inl quotaExceeded,
         [Request, Sleep 2000, Request, Sleep 4000, Request, Sleep 8000, Request])"
    by (simp add: fetchTtsAudio_def)
next
  show "countRequests (snd (fetchTtsAudio key api text)) \<le> 4"
    using makeRequest_bounded [of 0 "api (trim text)"]
    by (simp add: fetchTtsAudio_def Let_def countRequests_def)
next
  show "message quotaExceeded = ''Voice service quota exceeded. Please try again later.''"
    by (simp add: quotaExceeded_def Error_def)
next
  show "isRateLimit e \<longleftrightarrow>
        js_or (status e) (code e) = Some (JNum 429) \<or> includes_str (message e) ''429'' \<or>
        includes_str (message e) ''RESOURCE_EXHAUSTED'' \<or> includes_str (message e) ''quota''"
    by (simp add: isRateLimit_def)
qed

theorem C6_rate_limit_retries_bounded_witness:
  "str_truthy (Some ''key'') \<and> trim '' hello '' = ''hello''
   \<and> attemptOnce (alwaysRateLimited ''hello'' 0) 0 = Caught tooManyRequests
   \<and> attemptOnce (alwaysRateLimited ''hello'' 3) 3 = Caught tooManyRequests
   \<and> isRateLimit tooManyRequests
   \<and> fetchTtsAudio (Some ''key'') alwaysRateLimited '' hello '' =
        (Inl (Error ''Voice service quota exceeded. Please try again later.''),
         [Request, Sleep 2000, Request, Sleep 4000, Request, Sleep 8000, Request])
   \<and> countRequests (snd (fetchTtsAudio (Some ''key'') alwaysRateLimited '' hello '')) = 4"
proof -
  have t: "trim '' hello '' = ''hello''"
    by (simp add: trim_def isSpace_def)
  have r: "isRateLimit tooManyRequests"
    by (simp add: isRateLimit_def tooManyRequests_def js_or_def)
  have c: "attemptOnce (alwaysRateLimited ''hello'' n) n = Caught tooManyRequests" for n
    by (simp add: attemptOnce_def alwaysRateLimited_def)
  have k: "str_truthy (Some ''key'')"
    by (simp add: str_truthy_def)
  have "fetchTtsAudio (Some ''key'') alwaysRateLimited '' hello '' =
        (Inl quotaExceeded,
         [Request, Sleep 2000, Request, Sleep 4000, Request, Sleep 8000, Request])"
    using C6_rate_limit_retries_bounded [of "Some ''key''" "'' hello ''" alwaysRateLimited] t r c k
    by simp
  then show ?thesis using t r c k
    by (simp add: quotaExceeded_def countRequests_def)
qed

section \<open>The audio cache\<close>

lemma getAudioContext_keeps:
  "getAudioContext env s = Inr s1 \<Longrightarrow>
     audioCache s1 = audioCache s \<and> ttsCalls s1 = ttsCalls s \<and> ttsEvents s1 = ttsEvents s
     \<and> sounding s1 = sounding s \<and> activeSourceRef s1 = activeSourceRef s"
  by (auto simp: getAudioContext_def split: if_splits)

lemma stopCurrentAudio_keeps:
  "audioCache (stopCurrentAudio s) = audioCache s \<and> ttsCalls (stopCurrentAudio s) = ttsCalls s
   \<and> ttsEvents (stopCurrentAudio s) = ttsEvents s"
  by (simp add: stopCurrentAudio_def split: option.splits)

lemma playTail_keeps:
  "audioCache (playTail seen text buffer s) = audioCache s
   \<and> ttsCalls (playTail seen text buffer s) = ttsCalls s
   \<and> ttsEvents (playTail seen text buffer s) = ttsEvents s"
  by (simp add: playTail_def playAudioBuffer_def)

lemma fetchAndDecode_keeps:
  "audioCache (snd (fetchAndDecode env text s)) = audioCache s"
  by (simp add: fetchAndDecode_def Let_def split: prod.splits sum.splits)

lemma onended_keeps: "audioCache (onended src s) = audioCache s"
  by (simp add: onended_def Let_def)

lemma prefetchAudio_begin_cache:
  "audioCache (fst (prefetchAudio_begin env text s)) = audioCache s"
  by (auto simp: prefetchAudio_begin_def Let_def dest: getAudioContext_keeps split: sum.splits)

lemma playText_begin_cache:
  "audioCache (fst (playText_begin env text s)) = audioCache s"
  by (auto simp: playText_begin_def Let_def playTail_keeps stopCurrentAudio_keeps
      dest!: getAudioContext_keeps split: sum.splits option.splits)

lemma resume_cache:
  "audioCache s k \<noteq> None \<Longrightarrow> audioCache (resume env call s) k \<noteq> None"
proof (cases call)
  case (SuspendedPlay tx seen)
  then show "audioCache s k \<noteq> None \<Longrightarrow> audioCache (resume env call s) k \<noteq> None"
    using fetchAndDecode_keeps [of env tx s]
    by (cases "fetchAndDecode env tx s") (auto simp: playTail_keeps split: sum.splits)
next
  case (SuspendedPrefetch tx)
  then show "audioCache s k \<noteq> None \<Longrightarrow> audioCache (resume env call s) k \<noteq> None"
    using fetchAndDecode_keeps [of env tx s]
    by (cases "fetchAndDecode env tx s") (auto split: sum.splits)
qed

lemma suspend_audio: "audio (suspend ss r) = fst r"
  by (cases r) (auto simp: suspend_def split: option.splits)

lemma step_cache:
  "audioCache (audio ss) k \<noteq> None \<Longrightarrow> audioCache (audio (step env ev ss)) k \<noteq> None"
  by (cases ev)
    (simp_all add: suspend_audio playText_begin_cache prefetchAudio_begin_cache resume_cache
      onended_keeps del: not_None_eq)

lemma run_cache:
  "audioCache (audio ss) k \<noteq> None \<Longrightarrow> audioCache (audio (run env evs ss)) k \<noteq> None"
  by (induction evs arbitrary: ss) (simp_all add: step_cache del: not_None_eq)

lemma prefetchAudio_cached:
  "audioCache s (toLowerCase (trim text)) \<noteq> None \<Longrightarrow> prefetchAudio_begin env text s = (s, None)"
  by (simp add: prefetchAudio_begin_def)

lemma playText_begin_cached:
  assumes "audioCache s (toLowerCase (trim text)) \<noteq> None"
  shows "snd (playText_begin env text s) = None
     \<and> ttsCalls (fst (playText_begin env text s)) = ttsCalls s
     \<and> ttsEvents (fst (playText_begin env text s)) = ttsEvents s"
  using assms
  by (auto simp: playText_begin_def Let_def playTail_keeps stopCurrentAudio_keeps
      dest!: getAudioContext_keeps split: sum.splits option.splits)

lemma stopCurrentAudio_sources:
  "sourceBuffers (stopCurrentAudio s) = sourceBuffers s \<and> created (stopCurrentAudio s) = created s
   \<and> audioContextRef (stopCurrentAudio s) = audioContextRef s"
  by (simp add: stopCurrentAudio_def split: option.splits)

lemma getAudioContext_sources:
  "getAudioContext env s = Inr s1 \<Longrightarrow>
     sourceBuffers s1 = sourceBuffers s \<and> created s1 = created s \<and> playingWord s1 = playingWord s"
  by (auto simp: getAudioContext_def split: if_splits)

lemma getAudioContext_available:
  "audioContextRef s \<or> audioSupported env \<Longrightarrow> \<exists>s1. getAudioContext env s = Inr s1"
  by (auto simp: getAudioContext_def)

lemma resume_stores:
  assumes "fst (fetchAndDecode env t s) = Inr buffer"
  shows "audioCache (resume env (SuspendedPlay t seen) s) (toLowerCase (trim t)) = Some buffer"
    and "audioCache (resume env (SuspendedPrefetch t) s) (toLowerCase (trim t)) = Some buffer"
  using assms by (cases "fetchAndDecode env t s"; simp add: playTail_keeps)+

lemma playText_stores:
  assumes "t \<noteq> []" and "audioCache s (toLowerCase (trim t)) = None"
    and "getAudioContext env ((stopCurrentAudio s)\<lparr>playingWord := Some t\<rparr>) = Inr s3"
    and "fst (fetchAndDecode env t s3) = Inr buffer"
  shows "audioCache (playText env t s) (toLowerCase (trim t)) = Some buffer"
proof -
  have "audioCache s3 (toLowerCase (trim t)) = None"
    using getAudioContext_keeps [OF assms(3)] stopCurrentAudio_keeps [of s] assms(2) by simp
  then have "playText_begin env t s = (s3, Some (SuspendedPlay t (playingWord s)))"
    using assms(1,3) by (simp add: playText_begin_def Let_def)
  then show ?thesis
    using resume_stores(1) [OF assms(4)] by (simp add: playText_def)
qed

lemma playText_serves:
  assumes "t \<noteq> []" and "audioCache s (toLowerCase (trim t)) = Some b"
    and "audioContextRef s \<or> audioSupported env"
    and "playingWord s = None \<or> playingWord s = Some t"
  shows "sourceBuffers (playText env t s) = sourceBuffers s @ [b]
     \<and> activeSourceRef (playText env t s) = Some (created s)
     \<and> created s \<in> set (sounding (playText env t s))
     \<and> audioCache (playText env t s) = audioCache s"
proof -
  let ?s2 = "(stopCurrentAudio s)\<lparr>playingWord := Some t\<rparr>"
  have "audioContextRef ?s2 \<or> audioSupported env"
    using assms(3) stopCurrentAudio_sources [of s] by simp
  then obtain s3 where ctx: "getAudioContext env ?s2 = Inr s3"
    using getAudioContext_available by blast
  have c3: "audioCache s3 = audioCache s"
    using getAudioContext_keeps [OF ctx] stopCurrentAudio_keeps [of s] by simp
  have src: "sourceBuffers s3 = sourceBuffers s" "created s3 = created s"
    using getAudioContext_sources [OF ctx] stopCurrentAudio_sources [of s] by simp_all
  have "playText env t s = playTail (playingWord s) t b s3"
    using assms(1,2) ctx c3 by (simp add: playText_def playText_begin_def Let_def)
  then show ?thesis
    using assms(4) c3 src by (auto simp: playTail_def playAudioBuffer_def)
qed

text \<open>
  Claim C5. The cache key of \<^verbatim>\<open>prefetchAudio\<close> and of \<^verbatim>\<open>playText\<close> is the trimmed,
  lower-cased text, so two texts with the same normal form share one entry: a prefetch
  and a playback that fetch and decode their audio store it under that key (also when the
  call was suspended at its fetch and resumes later), and a playback of a text whose key
  is cached gives the cached buffer of that entry to the source it starts. Once the key of
  a text is cached it stays cached whatever happens afterwards (calls beginning, suspended
  calls resuming, sources ending), and from then on a prefetch of any text with the same
  key changes nothing and a playback of such a text awaits no fetch: neither performs a
  text-to-speech call.
\<close>

theorem C5_cache_keyed_by_normalized_text:
  assumes "toLowerCase (trim t1) = toLowerCase (trim t2)"
  shows "(audioCache (audio ss) (toLowerCase (trim t1)) \<noteq> None \<longrightarrow>
            audioCache (audio (run env evs ss)) (toLowerCase (trim t2)) \<noteq> None
          \<and> prefetchAudio_begin env' t2 (audio (run env evs ss)) = (audio (run env evs ss), None)
          \<and> prefetchAudio env' t2 (audio (run env evs ss)) = audio (run env evs ss)
          \<and> snd (playText_begin env' t2 (audio (run env evs ss))) = None
          \<and> ttsCalls (playText env' t2 (audio (run env evs ss))) = ttsCalls (audio (run env evs ss))
          \<and> ttsEvents (playText env' t2 (audio (run env evs ss))) = ttsEvents (audio (run env evs ss)))
     \<and> (t1 \<noteq> [] \<and> audioCache s (toLowerCase (trim t1)) = None \<and> getAudioContext env s = Inr s1
          \<and> fst (fetchAndDecode env t1 s1) = Inr buffer \<longrightarrow>
            audioCache (prefetchAudio env t1 s) (toLowerCase (trim t2)) = Some buffer)
     \<and> (t1 \<noteq> [] \<and> audioCache s (toLowerCase (trim t1)) = None
          \<and> getAudioContext env ((stopCurrentAudio s)\<lparr>playingWord := Some t1\<rparr>) = Inr s3
          \<and> fst (fetchAndDecode env t1 s3) = Inr buffer \<longrightarrow>
            audioCache (playText env t1 s) (toLowerCase (trim t2)) = Some buffer)
     \<and> (fst (fetchAndDecode env t1 s) = Inr buffer \<longrightarrow>
            audioCache (resume env (SuspendedPlay t1 seen) s) (toLowerCase (trim t2)) = Some buffer
          \<and> audioCache (resume env (SuspendedPrefetch t1) s) (toLowerCase (trim t2)) = Some buffer)
     \<and> (t2 \<noteq> [] \<and> audioCache s (toLowerCase (trim t1)) = Some b
          \<and> (audioContextRef s \<or> audioSupported env)
          \<and> (playingWord s = None \<or> playingWord s = Some t2) \<longrightarrow>
            sourceBuffers (playText env t2 s) = sourceBuffers s @ [b]
          \<and> activeSourceRef (playText env t2 s) = Some (created s)
          \<and> created s \<in> set (sounding (playText env t2 s))
          \<and> audioCache (playText env t2 s) = audioCache s)"
proof (intro conjI impI)
  assume "audioCache (audio ss) (toLowerCase (trim t1)) \<noteq> None"
  then have c: "audioCache (audio (run env evs ss)) (toLowerCase (trim t2)) \<noteq> None"
    using run_cache [of ss "toLowerCase (trim t1)" env evs] assms by simp
  then show "audioCache (audio (run env evs ss)) (toLowerCase (trim t2)) \<noteq> None" .
  from c show b: "prefetchAudio_begin env' t2 (audio (run env evs ss)) = (audio (run env evs ss), None)"
    by (rule prefetchAudio_cached)
  then show "prefetchAudio env' t2 (audio (run env evs ss)) = audio (run env evs ss)"
    by (simp add: prefetchAudio_def)
  from playText_begin_cached [OF c, of env']
  show "snd (playText_begin env' t2 (audio (run env evs ss))) = None"
    and "ttsCalls (playText env' t2 (audio (run env evs ss))) = ttsCalls (audio (run env evs ss))"
    and "ttsEvents (playText env' t2 (audio (run env evs ss))) = ttsEvents (audio (run env evs ss))"
    by (cases "playText_begin env' t2 (audio (run env evs ss))"; simp add: playText_def)+
next
  assume a: "t1 \<noteq> [] \<and> audioCache s (toLowerCase (trim t1)) = None \<and> getAudioContext env s = Inr s1
          \<and> fst (fetchAndDecode env t1 s1) = Inr buffer"
  then have "prefetchAudio_begin env t1 s = (s1, Some (SuspendedPrefetch t1))"
    by (simp add: prefetchAudio_begin_def)
  with a show "audioCache (prefetchAudio env t1 s) (toLowerCase (trim t2)) = Some buffer"
    using assms by (cases "fetchAndDecode env t1 s1") (simp add: prefetchAudio_def)
next
  assume "t1 \<noteq> [] \<and> audioCache s (toLowerCase (trim t1)) = None
          \<and> getAudioContext env ((stopCurrentAudio s)\<lparr>playingWord := Some t1\<rparr>) = Inr s3
          \<and> fst (fetchAndDecode env t1 s3) = Inr buffer"
  then show "audioCache (playText env t1 s) (toLowerCase (trim t2)) = Some buffer"
    using playText_stores [of t1 s env s3 buffer] assms by simp
next
  assume f: "fst (fetchAndDecode env t1 s) = Inr buffer"
  show "audioCache (resume env (SuspendedPlay t1 seen) s) (toLowerCase (trim t2)) = Some buffer"
    using resume_stores(1) [OF f, of seen] assms by simp
  show "audioCache (resume env (SuspendedPrefetch t1) s) (toLowerCase (trim t2)) = Some buffer"
    using resume_stores(2) [OF f] assms by simp
next
  assume a: "t2 \<noteq> [] \<and> audioCache s (toLowerCase (trim t1)) = Some b
          \<and> (audioContextRef s \<or> audioSupported env)
          \<and> (playingWord s = None \<or> playingWord s = Some t2)"
  then have serves: "sourceBuffers (playText env t2 s) = sourceBuffers s @ [b]
     \<and> activeSourceRef (playText env t2 s) = Some (created s)
     \<and> created s \<in> set (sounding (playText env t2 s))
     \<and> audioCache (playText env t2 s) = audioCache s"
    using playText_serves [of t2 s b env] assms by simp
  from serves show "sourceBuffers (playText env t2 s) = sourceBuffers s @ [b]" by simp
  from serves show "activeSourceRef (playText env t2 s) = Some (created s)" by simp
  from serves show "created s \<in> set (sounding (playText env t2 s))" by simp
  from serves show "audioCache (playText env t2 s) = audioCache s" by simp
qed

lemma norm_Hello: "toLowerCase (trim '' Hello '') = ''hello''"
  by code_simp

lemma norm_hello: "toLowerCase (trim ''hello'') = ''hello''"
  by (simp add: toLowerCase_def trim_def isSpace_def lowerChar_def Let_def)

lemma fetch_hello: "fetchTtsAudio (Some ''key'') (speakingApi 0) ''hello'' = (Inr ''AAEC'', [Request])"
  by (simp add: fetchTtsAudio_def str_truthy_def trim_def isSpace_def makeRequest.simps
      attemptOnce_def speakingApi_def Let_def)

lemma prefetch_hello: "prefetchAudio exampleAudioEnv ''hello'' initialAudio =
   initialAudio\<lparr>audioContextRef := True, audioCache := (\<lambda>k. None)(''hello'' := Some [256, 2]),
      ttsCalls := 1, ttsEvents := [Request]\<rparr>"
  by (simp add: prefetchAudio_def prefetchAudio_begin_def norm_hello initialAudio_def getAudioContext_def
      exampleAudioEnv_def fetchAndDecode_def fetch_hello)

theorem C5_cache_keyed_by_normalized_text_witness:
  "toLowerCase (trim ''hello'') = toLowerCase (trim '' Hello '')
   \<and> audioCache (prefetchAudio exampleAudioEnv ''hello'' initialAudio) (toLowerCase (trim ''hello''))
        \<noteq> None
   \<and> ttsCalls (prefetchAudio exampleAudioEnv ''hello'' initialAudio) = 1
   \<and> prefetchAudio exampleAudioEnv '' Hello '' (prefetchAudio exampleAudioEnv ''hello'' initialAudio)
        = prefetchAudio exampleAudioEnv ''hello'' initialAudio
   \<and> ttsCalls (playText exampleAudioEnv '' Hello ''
         (prefetchAudio exampleAudioEnv ''hello'' initialAudio)) = 1
   \<and> ''hello'' \<noteq> [] \<and> audioCache initialAudio (toLowerCase (trim ''hello'')) = None
   \<and> getAudioContext exampleAudioEnv initialAudio = Inr (initialAudio\<lparr>audioContextRef := True\<rparr>)
   \<and> fst (fetchAndDecode exampleAudioEnv ''hello'' (initialAudio\<lparr>audioContextRef := True\<rparr>))
        = Inr [256, 2]
   \<and> audioCache (prefetchAudio exampleAudioEnv ''hello'' initialAudio) (toLowerCase (trim '' Hello ''))
        = Some [256, 2]
   \<and> getAudioContext exampleAudioEnv ((stopCurrentAudio initialAudio)\<lparr>playingWord := Some ''hello''\<rparr>)
        = Inr (initialAudio\<lparr>playingWord := Some ''hello'', audioContextRef := True\<rparr>)
   \<and> fst (fetchAndDecode exampleAudioEnv ''hello''
          (initialAudio\<lparr>playingWord := Some ''hello'', audioContextRef := True\<rparr>)) = Inr [256, 2]
   \<and> audioCache (playText exampleAudioEnv ''hello'' initialAudio) (toLowerCase (trim '' Hello ''))
        = Some [256, 2]
   \<and> audioCache (resume exampleAudioEnv (SuspendedPlay ''hello'' None)
          (initialAudio\<lparr>audioContextRef := True\<rparr>)) (toLowerCase (trim '' Hello '')) = Some [256, 2]
   \<and> audioCache (resume exampleAudioEnv (SuspendedPrefetch ''hello'')
          (initialAudio\<lparr>audioContextRef := True\<rparr>)) (toLowerCase (trim '' Hello '')) = Some [256, 2]
   \<and> '' Hello '' \<noteq> []
   \<and> audioCache (prefetchAudio exampleAudioEnv ''hello'' initialAudio) (toLowerCase (trim ''hello''))
        = Some [256, 2]
   \<and> audioSupported exampleAudioEnv
   \<and> playingWord (prefetchAudio exampleAudioEnv ''hello'' initialAudio) = None
   \<and> sourceBuffers (playText exampleAudioEnv '' Hello ''
         (prefetchAudio exampleAudioEnv ''hello'' initialAudio)) = [[256, 2]]
   \<and> activeSourceRef (playText exampleAudioEnv '' Hello ''
         (prefetchAudio exampleAudioEnv ''hello'' initialAudio)) = Some 0"
proof -
  let ?pre = "prefetchAudio exampleAudioEnv ''hello'' initialAudio"
  let ?ctx = "initialAudio\<lparr>audioContextRef := True\<rparr>"
  let ?play = "initialAudio\<lparr>playingWord := Some ''hello'', audioContextRef := True\<rparr>"
  have eq: "toLowerCase (trim ''hello'') = toLowerCase (trim '' Hello '')"
    by (simp add: norm_hello norm_Hello)
  have ctx: "getAudioContext exampleAudioEnv initialAudio = Inr ?ctx"
    by (simp add: getAudioContext_def initialAudio_def exampleAudioEnv_def)
  have fetch: "fst (fetchAndDecode exampleAudioEnv ''hello'' ?ctx) = Inr [256, 2]"
    by (simp add: fetchAndDecode_def initialAudio_def exampleAudioEnv_def fetch_hello)
  have fresh: "audioCache initialAudio (toLowerCase (trim ''hello'')) = None"
    by (simp add: initialAudio_def)
  have cached: "audioCache ?pre (toLowerCase (trim ''hello'')) = Some [256, 2]"
    by (simp add: prefetch_hello norm_hello)
  have calls: "ttsCalls ?pre = 1"
    by (simp add: prefetch_hello)
  have pctx: "getAudioContext exampleAudioEnv ((stopCurrentAudio initialAudio)\<lparr>playingWord := Some ''hello''\<rparr>)
        = Inr ?play"
    by (simp add: getAudioContext_def stopCurrentAudio_def initialAudio_def exampleAudioEnv_def)
  have pfetch: "fst (fetchAndDecode exampleAudioEnv ''hello'' ?play) = Inr [256, 2]"
    by (simp add: fetchAndDecode_def initialAudio_def exampleAudioEnv_def fetch_hello)
  have sup: "audioSupported exampleAudioEnv"
    by (simp add: exampleAudioEnv_def)
  have quiet: "playingWord ?pre = None" "sourceBuffers ?pre = []" "created ?pre = 0"
    by (simp_all add: prefetch_hello) (simp_all add: initialAudio_def)
  have ne: "'' Hello '' \<noteq> []" "''hello'' \<noteq> []"
    by simp_all
  note inst = C5_cache_keyed_by_normalized_text [OF eq]
  show ?thesis
    using inst [where ss = "\<lparr>audio = ?pre, suspendedCalls = []\<rparr>"
        and env = exampleAudioEnv and evs = "[]" and env' = exampleAudioEnv and s = initialAudio
        and ?s1.0 = ?ctx and ?s3.0 = ?play and buffer = "[256, 2]"]
      inst [where env = exampleAudioEnv and s = ?ctx and buffer = "[256, 2]" and seen = None]
      inst [where env = exampleAudioEnv and s = ?pre and b = "[256, 2]"]
      eq ctx fetch fresh cached calls pctx pfetch sup quiet ne
    by simp
qed

section \<open>Playback\<close>

lemma singleSource_iff:
  "singleSource s \<longleftrightarrow>
     sounding s = [] \<or> (\<exists>a. activeSourceRef s = Some a \<and> sounding s = [a])"
  by (auto simp: singleSource_def split: list.splits)

lemma stopCurrentAudio_silent:
  "singleSource s \<Longrightarrow> sounding (stopCurrentAudio s) = [] \<and> activeSourceRef (stopCurrentAudio s) = None"
  by (auto simp: singleSource_iff stopCurrentAudio_def split: option.splits)

lemma playTail_single:
  "sounding s = [] \<Longrightarrow> singleSource (playTail seen text buffer s)"
  by (simp add: playTail_def playAudioBuffer_def singleSource_iff)

lemma fetchAndDecode_sounding:
  "sounding (snd (fetchAndDecode env text s)) = sounding s
   \<and> activeSourceRef (snd (fetchAndDecode env text s)) = activeSourceRef s"
  by (simp add: fetchAndDecode_def Let_def split: prod.splits sum.splits)

text \<open>
  A call of \<^verbatim>\<open>playText\<close> that runs to its end before anything else happens stops the
  source that was sounding and leaves at most one source sounding.
\<close>

lemma playText_alone_single_source:
  assumes "singleSource s"
  shows "singleSource (playText env text s)"
proof (cases "text = []")
  case True
  with assms show ?thesis by (simp add: playText_def playText_begin_def)
next
  case False
  let ?s2 = "(stopCurrentAudio s)\<lparr>playingWord := Some text\<rparr>"
  have quiet: "sounding ?s2 = []" "activeSourceRef ?s2 = None"
    using stopCurrentAudio_silent [OF assms] by simp_all
  show ?thesis
  proof (cases "getAudioContext env ?s2")
    case (Inl e)
    with False quiet show ?thesis
      by (simp add: playText_def playText_begin_def Let_def singleSource_iff)
  next
    case (Inr s3)
    then have q3: "sounding s3 = []" using getAudioContext_keeps [OF Inr] quiet by simp
    show ?thesis
    proof (cases "audioCache s3 (toLowerCase (trim text))")
      case (Some buffer)
      with False Inr q3 show ?thesis
        by (simp add: playText_def playText_begin_def Let_def playTail_single)
    next
      case None
      obtain r s4 where f: "fetchAndDecode env text s3 = (r, s4)"
        by (cases "fetchAndDecode env text s3")
      then have q4: "sounding s4 = []" using fetchAndDecode_sounding [of env "text" s3] q3 by simp
      show ?thesis
      proof (cases r)
        case (Inl e)
        with None False Inr f q4 show ?thesis
          by (simp add: playText_def playText_begin_def Let_def singleSource_iff)
      next
        case (Inr buffer)
        with None False \<open>getAudioContext env ?s2 = Inr s3\<close> f q4 show ?thesis
          by (simp add: playText_def playText_begin_def Let_def playTail_single)
      qed
    qed
  qed
qed

text \<open>
  Claim C7 says that in any sequence of \<^verbatim>\<open>playText\<close> calls at most one audio source is
  active at a time. When \<^verbatim>\<open>playText\<close> is called twice for the same uncached text before
  the first fetch returns, both calls are suspended at their fetch; when they resume, each
  starts a source and neither stops the other: sources 0 and 1 sound together.
\<close>

theorem C7_overlapping_playText_two_sources:
  "suspendedCalls (run exampleAudioEnv [CallPlay ''hello'', CallPlay ''hello''] initialSession) =
      [SuspendedPlay ''hello'' None, SuspendedPlay ''hello'' (Some ''hello'')]
   \<and> sounding (audio (run exampleAudioEnv [CallPlay ''hello'', CallPlay ''hello'', Resume 0]
        initialSession)) = [0]
   \<and> sounding (audio (run exampleAudioEnv
        [CallPlay ''hello'', CallPlay ''hello'', Resume 0, Resume 0] initialSession)) = [0, 1]
   \<and> activeSourceRef (audio (run exampleAudioEnv
        [CallPlay ''hello'', CallPlay ''hello'', Resume 0, Resume 0] initialSession)) = Some 1"
proof -
  have f: "fetchTtsAudio (Some ''key'') (speakingApi k) ''hello'' = (Inr ''AAEC'', [Request])" for k
    by (simp add: fetchTtsAudio_def str_truthy_def trim_def isSpace_def makeRequest.simps
      attemptOnce_def speakingApi_def Let_def)
  have two: "run exampleAudioEnv [CallPlay ''hello'', CallPlay ''hello''] initialSession =
    \<lparr>audio = initialAudio\<lparr>playingWord := Some ''hello'', audioContextRef := True\<rparr>,
     suspendedCalls = [SuspendedPlay ''hello'' None, SuspendedPlay ''hello'' (Some ''hello'')]\<rparr>"
    by (simp add: initialSession_def initialAudio_def suspend_def playText_begin_def
        stopCurrentAudio_def getAudioContext_def exampleAudioEnv_def norm_hello)
  have three: "run exampleAudioEnv [Resume 0]
      \<lparr>audio = initialAudio\<lparr>playingWord := Some ''hello'', audioContextRef := True\<rparr>,
       suspendedCalls = [SuspendedPlay ''hello'' None, SuspendedPlay ''hello'' (Some ''hello'')]\<rparr> =
    \<lparr>audio = initialAudio\<lparr>playingWord := Some ''hello'', audioContextRef := True,
         audioCache := (\<lambda>k. None)(''hello'' := Some [256, 2]), activeSourceRef := Some 0,
         created := 1, sourceBuffers := [[256, 2]], sounding := [0], ttsCalls := 1,
         ttsEvents := [Request]\<rparr>,
     suspendedCalls = [SuspendedPlay ''hello'' (Some ''hello'')]\<rparr>"
    by (simp add: initialAudio_def fetchAndDecode_def exampleAudioEnv_def f norm_hello
        playTail_def playAudioBuffer_def)
  have four: "run exampleAudioEnv [Resume 0]
    \<lparr>audio = initialAudio\<lparr>playingWord := Some ''hello'', audioContextRef := True,
         audioCache := (\<lambda>k. None)(''hello'' := Some [256, 2]), activeSourceRef := Some 0,
         created := 1, sourceBuffers := [[256, 2]], sounding := [0], ttsCalls := 1,
         ttsEvents := [Request]\<rparr>,
     suspendedCalls = [SuspendedPlay ''hello'' (Some ''hello'')]\<rparr> =
    \<lparr>audio = initialAudio\<lparr>playingWord := Some ''hello'', audioContextRef := True,
         audioCache := (\<lambda>k. None)(''hello'' := Some [256, 2]), activeSourceRef := Some 1,
         created := 2, sourceBuffers := [[256, 2], [256, 2]], sounding := [0, 1], ttsCalls := 2,
         ttsEvents := [Request, Request]\<rparr>,
     suspendedCalls = []\<rparr>"
    by (simp add: initialAudio_def fetchAndDecode_def exampleAudioEnv_def f norm_hello
        playTail_def playAudioBuffer_def)
  have split3: "run env [a, b, c] ss = run env [c] (run env [a, b] ss)" for env a b c ss
    by simp
  have split4: "run env [a, b, c, d] ss = run env [d] (run env [c] (run env [a, b] ss))" for env a b c d ss
    by simp
  show ?thesis
    unfolding split3 split4 two three four by (simp add: initialAudio_def)
qed

end
